theory Spec2Isabelle
  imports Complex_Main "HOL-Library.Word"
begin

unbundle bit_operations_syntax

section \<open>Monitor identification block: \<open>parseedid\<close>\<close>

text \<open>
  The identification block is an array of \<open>unsigned char\<close>.  An access outside an
  array, a \<open>NULL\<close> dereference and a format conversion without its argument are
  undefined behaviour in C; the model reports each as a fault.
  \<open>g_warning\<close> appends to a log.
\<close>

type_synonym byte = "8 word"

datatype fault = OutOfBoundsRead | OutOfBoundsWrite | NullDereference | FormatConversion

datatype warning = ChecksumFailed | HeaderIncorrect

record parse_result =
  pr_log :: "warning list"
  pr_modelname :: "byte list"
  pr_return :: int

text \<open>\<open>for (i = 0; i<128; i++) sum += edid[i];\<close> with \<open>unsigned char sum\<close>.\<close>

function checksum_loop :: "byte list \<Rightarrow> nat \<Rightarrow> byte \<Rightarrow> fault + byte" where
  "checksum_loop edid i sm =
     (if i < 128 then
        (if i < length edid then checksum_loop edid (i + 1) (sm + edid ! i)
         else Inl OutOfBoundsRead)
      else Inr sm)"
  by pat_completeness auto
termination
  by (relation "measure (\<lambda>(edid, i, sm). 128 - i)") auto

declare checksum_loop.simps [simp del]

text \<open>
  \<open>for (i = 0; i < 8; i++)
       if (!(((i == 0 || i == 7) && edid[i] == 0x00) || (edid[i] == 0xff))) g_warning(...);\<close>
\<close>

function header_loop :: "byte list \<Rightarrow> nat \<Rightarrow> warning list \<Rightarrow> fault + warning list" where
  "header_loop edid i lg =
     (if i < 8 then
        (if i < length edid then
           header_loop edid (i + 1)
             (if \<not> (((i = 0 \<or> i = 7) \<and> edid ! i = 0x00) \<or> edid ! i = 0xFF)
              then lg @ [HeaderIncorrect] else lg)
         else Inl OutOfBoundsRead)
      else Inr lg)"
  by pat_completeness auto
termination
  by (relation "measure (\<lambda>(edid, i, lg). 8 - i)") auto

declare header_loop.simps [simp del]

text \<open>
  \<open>for (j = 0; j < 13; j++)
       if (edid[i+5+j] == 0x0a) modelname[j] = 0x00; else modelname[j] = edid[i+5+j];\<close>
\<close>

function name_loop :: "byte list \<Rightarrow> nat \<Rightarrow> nat \<Rightarrow> byte list \<Rightarrow> fault + byte list" where
  "name_loop edid i j modelname =
     (if j < 13 then
        (if i + 5 + j < length edid then
           (if j < length modelname then
              name_loop edid i (j + 1)
                (if edid ! (i + 5 + j) = 0x0A then modelname[j := 0x00]
                 else modelname[j := edid ! (i + 5 + j)])
            else Inl OutOfBoundsWrite)
         else Inl OutOfBoundsRead)
      else Inr modelname)"
  by pat_completeness auto
termination
  by (relation "measure (\<lambda>(edid, i, j, modelname). 13 - j)") auto

declare name_loop.simps [simp del]

text \<open>
  \<open>for (i = 0x36; i < 0x7E; i += 0x12)
       if (edid[i] == 0x00) if (edid[i+3] == 0xfc) <name loop>\<close>
\<close>

function desc_loop :: "byte list \<Rightarrow> nat \<Rightarrow> byte list \<Rightarrow> fault + byte list" where
  "desc_loop edid i modelname =
     (if i < 0x7E then
        (if i < length edid then
           (if edid ! i = 0x00 then
              (if i + 3 < length edid then
                 (if edid ! (i + 3) = 0xFC then
                    (case name_loop edid i 0 modelname of
                       Inl f \<Rightarrow> Inl f
                     | Inr modelname' \<Rightarrow> desc_loop edid (i + 0x12) modelname')
                  else desc_loop edid (i + 0x12) modelname)
               else Inl OutOfBoundsRead)
            else desc_loop edid (i + 0x12) modelname)
         else Inl OutOfBoundsRead)
      else Inr modelname)"
  by pat_completeness auto
termination
  by (relation "measure (\<lambda>(edid, i, modelname). 0x7E - i)") auto

declare desc_loop.simps [simp del]

definition parseedid :: "byte list \<Rightarrow> byte list \<Rightarrow> fault + parse_result" where
  "parseedid edid modelname =
     (case checksum_loop edid 0 0 of
        Inl f \<Rightarrow> Inl f
      | Inr sm \<Rightarrow>
          (case header_loop edid 0 (if sm \<noteq> 0 then [ChecksumFailed] else []) of
             Inl f \<Rightarrow> Inl f
           | Inr lg \<Rightarrow>
               (case desc_loop edid 0x36 modelname of
                  Inl f \<Rightarrow> Inl f
                | Inr modelname' \<Rightarrow>
                    Inr \<lparr>pr_log = lg, pr_modelname = modelname', pr_return = 0\<rparr>)))"

text \<open>
  The tests and the assignment of the loops above, named for the statements below:
  the test the header loop applies to byte \<open>i\<close>, the test the descriptor loop
  applies to the block at \<open>i\<close>, the byte the name loop stores for a source byte, and
  the thirteen bytes it stores for the block at \<open>i\<close>.
\<close>

definition header_byte_ok :: "byte list \<Rightarrow> nat \<Rightarrow> bool" where
  "header_byte_ok edid i = (((i = 0 \<or> i = 7) \<and> edid ! i = 0x00) \<or> edid ! i = 0xFF)"

definition name_tagged :: "byte list \<Rightarrow> nat \<Rightarrow> bool" where
  "name_tagged edid i = (edid ! i = 0x00 \<and> edid ! (i + 3) = 0xFC)"

definition name_byte :: "byte \<Rightarrow> byte" where
  "name_byte b = (if b = 0x0A then 0x00 else b)"

definition name_field :: "byte list \<Rightarrow> nat \<Rightarrow> byte list" where
  "name_field edid i = map (\<lambda>j. name_byte (edid ! (i + 5 + j))) [0..<13]"

definition descriptor_offsets :: "nat list" where
  "descriptor_offsets = [0x36, 0x48, 0x5A, 0x6C]"

text \<open>
  What a \<open>%s\<close> conversion reads from a \<open>char\<close> array: the bytes before the first
  NUL.  When the array holds no NUL the read runs past its end.
\<close>

definition c_str :: "byte list \<Rightarrow> byte list option" where
  "c_str buf = (if 0 \<in> set buf then Some (takeWhile (\<lambda>b. b \<noteq> 0) buf) else None)"

definition chars_of :: "byte list \<Rightarrow> string" where
  "chars_of bs = map (\<lambda>b. char_of (unat b)) bs"

section \<open>RandR data\<close>

text \<open>
  The structures of \<open>Xrandr.h\<close>, with the fields the program reads.  An \<open>XID\<close>
  and the other \<open>unsigned long\<close> fields carry the protocol's 32-bit values;
  \<open>int\<close> fields are 32-bit words read with \<open>sint\<close>.  An array and its count
  field form one list.
\<close>

type_synonym XID = "32 word"

record XRRModeInfo =
  mi_id :: XID
  mi_dotClock :: "32 word"
  mi_hTotal :: "32 word"
  mi_vTotal :: "32 word"
  mi_name :: string
  mi_modeFlags :: "32 word"

record XRROutputInfo =
  oi_crtc :: XID
  oi_name :: string
  oi_connection :: "16 word"
  oi_npreferred :: "32 word"
  oi_modes :: "XID list"

record XRRCrtcInfo =
  ci_x :: int
  ci_y :: int
  ci_mode :: XID
  ci_rotation :: "16 word"
  ci_outputs :: "XID list"

record XRRScreenResources =
  res_outputs :: "XID list"
  res_modes :: "XRRModeInfo list"

text \<open>Constants of \<open>randr.h\<close>, \<open>X.h\<close> and \<open>Xatom.h\<close>.\<close>

definition RR_Interlace :: "32 word" where "RR_Interlace = 0x10"
definition RR_DoubleScan :: "32 word" where "RR_DoubleScan = 0x20"
definition RR_Rotate_0 :: "16 word" where "RR_Rotate_0 = 1"
definition RR_Disconnected :: "16 word" where "RR_Disconnected = 1"
definition CurrentTime :: "32 word" where "CurrentTime = 0"
definition XA_INTEGER :: XID where "XA_INTEGER = 19"

text \<open>
  The replies of the display server that the program asks for.  A \<open>NULL\<close> reply is
  \<open>None\<close>; \<open>srv_property\<close> is \<open>None\<close> when \<open>XRRGetOutputProperty\<close> returns
  a nonzero status.  In a property reply \<open>nitems\<close> is the length of \<open>pp_prop\<close>.
\<close>

record property_reply =
  pp_type :: XID
  pp_format :: int
  pp_prop :: "byte list"

record xserver =
  srv_edid_atom :: XID
  srv_property :: "XID \<Rightarrow> XID \<Rightarrow> property_reply option"
  srv_output_info :: "XID \<Rightarrow> XRROutputInfo option"
  srv_crtc_info :: "XID \<Rightarrow> XRRCrtcInfo option"

text \<open>The arguments of one \<open>XRRSetCrtcConfig\<close> call.\<close>

record crtc_config =
  rq_crtc :: XID
  rq_timestamp :: "32 word"
  rq_x :: int
  rq_y :: int
  rq_mode :: XID
  rq_rotation :: "16 word"
  rq_outputs :: "XID list"
  rq_noutputs :: int

section \<open>Fetching the identification block: \<open>output_edid_get\<close>\<close>

text \<open>
  The copy of the property bytes, or \<open>NULL\<close>.  A failing \<open>malloc\<close> is not
  modelled.
\<close>

definition output_edid_get :: "xserver \<Rightarrow> XID \<Rightarrow> byte list option" where
  "output_edid_get srv output =
     (if srv_edid_atom srv = 0 then None
      else
        (case srv_property srv output (srv_edid_atom srv) of
           None \<Rightarrow> None
         | Some r \<Rightarrow>
             if pp_type r = XA_INTEGER \<and> length (pp_prop r) \<ge> 1 \<and> pp_format r = 8
             then Some (pp_prop r)
             else None))"

section \<open>Mode lookup and refresh rate\<close>

text \<open>The first mode of the global table with the identifier, as the loop returns it.\<close>

fun find_mode :: "XRRModeInfo list \<Rightarrow> XID \<Rightarrow> XRRModeInfo option" where
  "find_mode [] xid = None"
| "find_mode (mode # rest) xid = (if xid = mi_id mode then Some mode else find_mode rest xid)"

definition find_mode_by_xid :: "XRRScreenResources \<Rightarrow> XID \<Rightarrow> XRRModeInfo option" where
  "find_mode_by_xid res xid = find_mode (res_modes res) xid"

text \<open>
  \<open>mode_refresh\<close> computes in \<open>double\<close>.  \<open>vTotal\<close> is a 32-bit count, so it, its
  double and its half are represented exactly; the conversion of \<open>dotClock\<close>, the
  product and the quotient round.  The rounding to \<open>double\<close> is the parameter
  \<open>rnd\<close>, which the model leaves uninterpreted.
\<close>

definition mode_refresh :: "(real \<Rightarrow> real) \<Rightarrow> XRRModeInfo \<Rightarrow> real" where
  "mode_refresh rnd mode_info =
     (let vTotal0 = real (unat (mi_vTotal mode_info));
          vTotal1 = (if mi_modeFlags mode_info AND RR_DoubleScan \<noteq> 0 then vTotal0 * 2
                     else vTotal0);
          vTotal2 = (if mi_modeFlags mode_info AND RR_Interlace \<noteq> 0 then vTotal1 / 2
                     else vTotal1)
      in if mi_hTotal mode_info \<noteq> 0 \<and> vTotal2 \<noteq> 0
         then rnd (rnd (real (unat (mi_dotClock mode_info))) /
                   rnd (real (unat (mi_hTotal mode_info)) * vTotal2))
         else 0)"

text \<open>The value of \<open>vTotal\<close> when \<open>mode_refresh\<close> reaches its test.\<close>

definition effective_vTotal :: "XRRModeInfo \<Rightarrow> real" where
  "effective_vTotal mode_info =
     (let vTotal0 = real (unat (mi_vTotal mode_info));
          vTotal1 = (if mi_modeFlags mode_info AND RR_DoubleScan \<noteq> 0 then vTotal0 * 2
                     else vTotal0)
      in if mi_modeFlags mode_info AND RR_Interlace \<noteq> 0 then vTotal1 / 2 else vTotal1)"

section \<open>Switching the mode: \<open>row_activated\<close>\<close>

text \<open>
  A row of the list store.  \<open>xid_col\<close> is the \<open>G_TYPE_INT\<close> column; \<open>name_col\<close>
  is the string \<open>asprintf(&name, mode_info->name)\<close> prints; \<open>mode_col\<close> is the
  resolved mode, from which the identifier, refresh and pixel clock strings are printed
  with the formats \<open>0x%x\<close>, \<open>%6.2fHz\<close> and \<open>%6.3fMHz\<close> (their printing is not
  modelled); \<open>preferred_col\<close> is the boolean column.
\<close>

record row =
  xid_col :: int
  name_col :: string
  mode_col :: XRRModeInfo
  preferred_col :: bool

text \<open>
  \<open>path\<close> is the index of the activated row, \<open>user_data\<close> the output the view was
  connected with.  The result lists the \<open>XRRSetCrtcConfig\<close> calls made.
\<close>

definition row_activated :: "xserver \<Rightarrow> row list \<Rightarrow> nat \<Rightarrow> XID \<Rightarrow> fault + crtc_config list" where
  "row_activated srv model path user_data =
     (if path < length model then
        (case srv_output_info srv user_data of
           None \<Rightarrow> Inl NullDereference
         | Some output_info \<Rightarrow>
             Inr [\<lparr>rq_crtc = oi_crtc output_info, rq_timestamp = CurrentTime,
                   rq_x = 0, rq_y = 0,
                   rq_mode = word_of_int (xid_col (model ! path)),
                   rq_rotation = RR_Rotate_0,
                   rq_outputs = [user_data], rq_noutputs = 1\<rparr>])
      else Inr [])"

text \<open>
  Modelled from the spec: the display server's commit of a CRTC configuration (target
  mode, position, rotation, output set), a capability of the display server binding that
  lies outside the repository.  An accepted request replaces these four attributes.
\<close>

definition commit_config :: "crtc_config \<Rightarrow> XRRCrtcInfo \<Rightarrow> XRRCrtcInfo" where
  "commit_config rq crtc_info =
     crtc_info\<lparr>ci_x := rq_x rq, ci_y := rq_y rq, ci_mode := rq_mode rq,
       ci_rotation := rq_rotation rq,
       ci_outputs := take (nat (rq_noutputs rq)) (rq_outputs rq)\<rparr>"

section \<open>Building the pages: \<open>activate\<close>\<close>

text \<open>
  \<open>asprintf(&name, mode_info->name)\<close> takes the mode's name as the format and passes
  no argument.  \<open>%%\<close> prints one \<open>%\<close>; any other conversion reads an argument that
  is not there, which is \<open>None\<close> here.
\<close>

fun asprintf_noargs :: "string \<Rightarrow> string option" where
  "asprintf_noargs [] = Some []"
| "asprintf_noargs [c] = (if c = CHR ''%'' then None else Some [c])"
| "asprintf_noargs (c # d # cs) =
     (if c = CHR ''%'' then
        (if d = CHR ''%'' then map_option (\<lambda>out. CHR ''%'' # out) (asprintf_noargs cs)
         else None)
      else map_option (\<lambda>out. c # out) (asprintf_noargs (d # cs)))"

text \<open>
  \<open>for (n = 0; n < output_info->nmode; ++n)\<close>: unresolved identifiers are skipped with
  \<open>continue\<close>.  \<open>n\<close> is \<open>unsigned int\<close> and \<open>npreferred\<close> is \<open>int\<close>, so
  \<open>n < output_info->npreferred\<close> compares both as unsigned.
\<close>

function mode_loop ::
  "XRRScreenResources \<Rightarrow> XRROutputInfo \<Rightarrow> nat \<Rightarrow> row list \<Rightarrow> fault + row list" where
  "mode_loop res output_info n list_store =
     (if n < length (oi_modes output_info) then
        (case find_mode_by_xid res (oi_modes output_info ! n) of
           None \<Rightarrow> mode_loop res output_info (n + 1) list_store
         | Some mode_info \<Rightarrow>
             (case asprintf_noargs (mi_name mode_info) of
                None \<Rightarrow> Inl FormatConversion
              | Some name \<Rightarrow>
                  mode_loop res output_info (n + 1)
                    (list_store @
                      [\<lparr>xid_col = sint (oi_modes output_info ! n), name_col = name,
                        mode_col = mode_info,
                        preferred_col = (word_of_nat n < oi_npreferred output_info)\<rparr>])))
      else Inr list_store)"
  by pat_completeness auto
termination
  by (relation "measure (\<lambda>(res, output_info, n, list_store). length (oi_modes output_info) - n)")
    auto

declare mode_loop.simps [simp del]

text \<open>
  For the statements below: the positions of the advertised list whose identifier the
  global table resolves, and the row the loop appends for such a position when the
  mode's name prints.
\<close>

definition resolved_positions :: "XRRScreenResources \<Rightarrow> XRROutputInfo \<Rightarrow> nat list" where
  "resolved_positions res output_info =
     filter (\<lambda>n. find_mode_by_xid res (oi_modes output_info ! n) \<noteq> None)
       [0..<length (oi_modes output_info)]"

definition row_at :: "XRRScreenResources \<Rightarrow> XRROutputInfo \<Rightarrow> nat \<Rightarrow> row" where
  "row_at res output_info n =
     \<lparr>xid_col = sint (oi_modes output_info ! n),
      name_col =
        the (asprintf_noargs (mi_name (the (find_mode_by_xid res (oi_modes output_info ! n))))),
      mode_col = the (find_mode_by_xid res (oi_modes output_info ! n)),
      preferred_col = (word_of_nat n < oi_npreferred output_info)\<rparr>"

record page =
  page_label :: string
  page_rows :: "row list"

text \<open>
  The body of the loop over \<open>res->outputs\<close>: \<open>Inr None\<close> is a \<open>continue\<close> without
  a page.  \<open>char modelname[13] = ""\<close> is thirteen NUL bytes.
\<close>

definition activate_output :: "xserver \<Rightarrow> XRRScreenResources \<Rightarrow> XID \<Rightarrow> fault + page option" where
  "activate_output srv res output =
     (case srv_output_info srv output of
        None \<Rightarrow> Inl NullDereference
      | Some output_info \<Rightarrow>
          if oi_connection output_info = RR_Disconnected then Inr None
          else if oi_crtc output_info = 0 then Inr None
          else
            (case srv_crtc_info srv (oi_crtc output_info) of
               None \<Rightarrow> Inr None
             | Some crtc_info \<Rightarrow>
                 (case (case output_edid_get srv output of
                          None \<Rightarrow> Inr (replicate 13 0)
                        | Some edid \<Rightarrow>
                            if length edid \<noteq> 0
                            then map_sum id pr_modelname (parseedid edid (replicate 13 0))
                            else Inr (replicate 13 0)) of
                    Inl f \<Rightarrow> Inl f
                  | Inr modelname \<Rightarrow>
                      (case mode_loop res output_info 0 [] of
                         Inl f \<Rightarrow> Inl f
                       | Inr list_store \<Rightarrow>
                           (case c_str modelname of
                              None \<Rightarrow> Inl OutOfBoundsRead
                            | Some s \<Rightarrow>
                                Inr (Some \<lparr>page_label =
                                             oi_name output_info @ ''('' @ chars_of s @ '')'',
                                           page_rows = list_store\<rparr>))))))"

fun activate :: "xserver \<Rightarrow> XRRScreenResources \<Rightarrow> XID list \<Rightarrow> page list \<Rightarrow> fault + page list" where
  "activate srv res [] notebook = Inr notebook"
| "activate srv res (output # outputs) notebook =
     (case activate_output srv res output of
        Inl f \<Rightarrow> Inl f
      | Inr None \<Rightarrow> activate srv res outputs notebook
      | Inr (Some p) \<Rightarrow> activate srv res outputs (notebook @ [p]))"

section \<open>The specification's wording\<close>

text \<open>
  The header pattern as the specification words it: byte 0 and byte 7 are \<open>0x00\<close>,
  bytes 1 to 6 are \<open>0xFF\<close>.
\<close>

definition spec_header_ok :: "byte list \<Rightarrow> bool" where
  "spec_header_ok edid =
     (edid ! 0 = 0x00 \<and> list_all (\<lambda>i. edid ! i = 0xFF) [1, 2, 3, 4, 5, 6] \<and> edid ! 7 = 0x00)"

text \<open>
  A model-name descriptor as the specification words it: the first two bytes of the
  block are \<open>0x00 0x00\<close> and the tag byte (the fourth byte, as in the specification's
  example) is \<open>0xFC\<close>.
\<close>

definition spec_name_descriptor :: "byte list \<Rightarrow> nat \<Rightarrow> bool" where
  "spec_name_descriptor edid i =
     (edid ! i = 0x00 \<and> edid ! (i + 1) = 0x00 \<and> edid ! (i + 3) = 0xFC)"

section \<open>Example inputs\<close>

text \<open>
  The specification's example block: the header \<open>00 FF FF FF FF FF FF 00\<close>, at
  offset \<open>0x36\<close> the descriptor \<open>00 00 00 FC 00 'A' 'B' 'C' 0A\<close> padded with
  spaces, and a last byte that makes the sum zero.
\<close>

definition abc_block :: "byte list" where
  "abc_block =
     [0x00, 0xFF, 0xFF, 0xFF, 0xFF, 0xFF, 0xFF, 0x00] @ replicate 46 0x00 @
     [0x00, 0x00, 0x00, 0xFC, 0x00, 0x41, 0x42, 0x43, 0x0A] @ replicate 9 0x20 @
     replicate 55 0x00 @ [0x1A]"

text \<open>The same block with \<open>0x01\<close> as the second byte of the descriptor.\<close>

definition second_byte_block :: "byte list" where
  "second_byte_block =
     [0x00, 0xFF, 0xFF, 0xFF, 0xFF, 0xFF, 0xFF, 0x00] @ replicate 46 0x00 @
     [0x00, 0x01, 0x00, 0xFC, 0x00, 0x41, 0x42, 0x43, 0x0A] @ replicate 9 0x20 @
     replicate 55 0x00 @ [0x19]"

text \<open>A block whose first eight bytes are all \<open>0xFF\<close>, with a zero sum.\<close>

definition ff_header_block :: "byte list" where
  "ff_header_block = replicate 8 0xFF @ replicate 119 0x00 @ [0x08]"

text \<open>
  A block with two model-name descriptors: \<open>ABC\<close> at \<open>0x36\<close> and \<open>XY\<close> at
  \<open>0x48\<close>.
\<close>

definition two_names_block :: "byte list" where
  "two_names_block =
     [0x00, 0xFF, 0xFF, 0xFF, 0xFF, 0xFF, 0xFF, 0x00] @ replicate 46 0x00 @
     [0x00, 0x00, 0x00, 0xFC, 0x00, 0x41, 0x42, 0x43, 0x0A] @ replicate 9 0x20 @
     [0x00, 0x00, 0x00, 0xFC, 0x00, 0x58, 0x59, 0x0A] @ replicate 10 0x20 @
     replicate 38 0x00"

text \<open>
  The example block with a wrong first byte: the header deviates and the sum is 1.
\<close>

definition damaged_block :: "byte list" where
  "damaged_block = abc_block[0 := 0x01]"

text \<open>A block whose model name fills all thirteen bytes, with a zero sum.\<close>

definition full_name_block :: "byte list" where
  "full_name_block =
     [0x00, 0xFF, 0xFF, 0xFF, 0xFF, 0xFF, 0xFF, 0x00] @ replicate 46 0x00 @
     [0x00, 0x00, 0x00, 0xFC, 0x00,
      0x41, 0x42, 0x43, 0x44, 0x45, 0x46, 0x47, 0x48, 0x49, 0x4A, 0x4B, 0x4C, 0x4D] @
     replicate 55 0x00 @ [0x6F]"

text \<open>
  A display server with two outputs.  Output \<open>0x42\<close> is connected and driven by CRTC
  \<open>0x3F\<close>; it advertises five modes, the first three preferred, the second of them
  missing from the global table.  The CRTC sits at \<open>(1920, 0)\<close>, rotated, and also
  drives output \<open>0x44\<close>.  Output \<open>0x43\<close> is connected and has no CRTC.
\<close>

definition mode_1080p :: XRRModeInfo where
  "mode_1080p =
     \<lparr>mi_id = 0x50, mi_dotClock = 148500000, mi_hTotal = 2200, mi_vTotal = 1125,
      mi_name = ''1920x1080'', mi_modeFlags = 0x05\<rparr>"

definition mode_1080i :: XRRModeInfo where
  "mode_1080i =
     \<lparr>mi_id = 0x51, mi_dotClock = 74250000, mi_hTotal = 2200, mi_vTotal = 1125,
      mi_name = ''1920x1080i'', mi_modeFlags = 0x15\<rparr>"

definition mode_240d :: XRRModeInfo where
  "mode_240d =
     \<lparr>mi_id = 0x52, mi_dotClock = 12600000, mi_hTotal = 400, mi_vTotal = 262,
      mi_name = ''320x240d'', mi_modeFlags = 0x2A\<rparr>"

definition mode_720p :: XRRModeInfo where
  "mode_720p =
     \<lparr>mi_id = 0x53, mi_dotClock = 74250000, mi_hTotal = 1650, mi_vTotal = 750,
      mi_name = ''1280x720'', mi_modeFlags = 0x05\<rparr>"

definition example_modes :: "XRRModeInfo list" where
  "example_modes = [mode_1080p, mode_1080i, mode_240d, mode_720p]"

definition example_res :: XRRScreenResources where
  "example_res = \<lparr>res_outputs = [0x42, 0x43], res_modes = example_modes\<rparr>"

definition example_output :: XRROutputInfo where
  "example_output =
     \<lparr>oi_crtc = 0x3F, oi_name = ''HDMI-1'', oi_connection = 0, oi_npreferred = 3,
      oi_modes = [0x50, 0x99, 0x51, 0x52, 0x53]\<rparr>"

definition example_output_no_crtc :: XRROutputInfo where
  "example_output_no_crtc =
     \<lparr>oi_crtc = 0, oi_name = ''DP-1'', oi_connection = 0, oi_npreferred = 1,
      oi_modes = [0x53]\<rparr>"

definition example_crtc :: XRRCrtcInfo where
  "example_crtc =
     \<lparr>ci_x = 1920, ci_y = 0, ci_mode = 0x50, ci_rotation = 2, ci_outputs = [0x42, 0x44]\<rparr>"

definition example_server :: xserver where
  "example_server =
     \<lparr>srv_edid_atom = 0x55,
      srv_property = (\<lambda>output property. None),
      srv_output_info = (\<lambda>output. if output = 0x42 then Some example_output
                                  else if output = 0x43 then Some example_output_no_crtc
                                  else None),
      srv_crtc_info = (\<lambda>crtc. if crtc = 0x3F then Some example_crtc else None)\<rparr>"

text \<open>Two modes without a defined rate: no horizontal total, no vertical total.\<close>

definition no_hTotal_mode :: XRRModeInfo where
  "no_hTotal_mode =
     \<lparr>mi_id = 0x54, mi_dotClock = 25175000, mi_hTotal = 0, mi_vTotal = 525,
      mi_name = ''h0'', mi_modeFlags = 0x00\<rparr>"

definition no_vTotal_mode :: XRRModeInfo where
  "no_vTotal_mode =
     \<lparr>mi_id = 0x55, mi_dotClock = 25175000, mi_hTotal = 800, mi_vTotal = 0,
      mi_name = ''v0'', mi_modeFlags = 0x30\<rparr>"

text \<open>
  The rows of the page of output \<open>0x42\<close>, and the same server after that output has
  lost its CRTC while the page is still shown.
\<close>

definition example_rows :: "row list" where
  "example_rows = map (row_at example_res example_output)
     (resolved_positions example_res example_output)"

definition unbound_server :: xserver where
  "unbound_server =
     example_server\<lparr>srv_output_info :=
       (\<lambda>output. if output = 0x42 then Some (example_output\<lparr>oi_crtc := 0\<rparr>)
                  else srv_output_info example_server output)\<rparr>"

text \<open>
  The global table when the first mode is named with conversions, and an
  identification property of 20 bytes.
\<close>

definition percent_mode :: XRRModeInfo where
  "percent_mode = mode_1080p\<lparr>mi_name := ''%s%s%s%s%s%s%s%s''\<rparr>"

definition percent_res :: XRRScreenResources where
  "percent_res =
     \<lparr>res_outputs = [0x42, 0x43],
      res_modes = [percent_mode, mode_1080i, mode_240d, mode_720p]\<rparr>"

definition short_block :: "byte list" where
  "short_block = take 20 abc_block"

text \<open>The same server when output \<open>0x42\<close> carries an identification property.\<close>

definition example_server_with :: "byte list \<Rightarrow> xserver" where
  "example_server_with edid =
     example_server\<lparr>srv_property :=
       (\<lambda>output property.
          if output = 0x42 \<and> property = 0x55
          then Some \<lparr>pp_type = XA_INTEGER, pp_format = 8, pp_prop = edid\<rparr>
          else None)\<rparr>"

section \<open>The loops of \<open>parseedid\<close> in closed form\<close>

lemma checksum_loop_eq:
  "128 \<le> length edid \<Longrightarrow> i \<le> 128 \<Longrightarrow>
   checksum_loop edid i sm = Inr (sm + sum_list (drop i (take 128 edid)))"
proof (induction edid i sm rule: checksum_loop.induct)
  case (1 edid i sm)
  show ?case
  proof (cases "i < 128")
    case True
    with "1.prems" have il: "i < length (take 128 edid)" by simp
    have d: "drop i (take 128 edid) = edid ! i # drop (Suc i) (take 128 edid)"
      using Cons_nth_drop_Suc [OF il] True by simp
    from True "1.prems" have "checksum_loop edid i sm = checksum_loop edid (i + 1) (sm + edid ! i)"
      by (simp add: checksum_loop.simps [of edid i])
    also have "\<dots> = Inr (sm + edid ! i + sum_list (drop (i + 1) (take 128 edid)))"
      using "1.IH" True "1.prems" by simp
    finally show ?thesis by (simp add: d add.assoc)
  next
    case False
    with "1.prems" have "i = 128" by simp
    then show ?thesis using "1.prems" by (subst checksum_loop.simps) simp
  qed
qed

lemma unat_sum_list_bytes: "unat (sum_list (bs :: byte list)) = sum_list (map unat bs) mod 256"
proof (induction bs)
  case Nil
  show ?case by simp
next
  case (Cons b bs)
  have "unat (b + sum_list bs) = (unat b + unat (sum_list bs)) mod 256"
    by (simp add: unat_word_ariths)
  also have "\<dots> = (unat b + sum_list (map unat bs)) mod 256"
    by (simp add: Cons.IH mod_add_right_eq)
  finally show ?case by simp
qed

lemma header_loop_eq:
  "8 \<le> length edid \<Longrightarrow> i \<le> 8 \<Longrightarrow>
   header_loop edid i lg =
     Inr (lg @ map (\<lambda>k. HeaderIncorrect) (filter (\<lambda>k. \<not> header_byte_ok edid k) [i..<8]))"
proof (induction edid i lg rule: header_loop.induct)
  case (1 edid i lg)
  show ?case
  proof (cases "i < 8")
    case True
    then have u: "[i..<8] = i # [i + 1..<8]" by (simp add: upt_conv_Cons)
    show ?thesis
      using True "1.prems" "1.IH"
      by (subst header_loop.simps) (simp add: u header_byte_ok_def)
  next
    case False
    then show ?thesis by (subst header_loop.simps) simp
  qed
qed

lemma name_loop_eq:
  "i + 18 \<le> length edid \<Longrightarrow> length modelname = 13 \<Longrightarrow> j \<le> 13 \<Longrightarrow>
   name_loop edid i j modelname =
     Inr (take j modelname @ map (\<lambda>k. name_byte (edid ! (i + 5 + k))) [j..<13])"
proof (induction edid i j modelname rule: name_loop.induct)
  case (1 edid i j modelname)
  show ?case
  proof (cases "j < 13")
    case True
    then have u: "[j..<13] = j # [j + 1..<13]" by (simp add: upt_conv_Cons)
    let ?m = "modelname[j := name_byte (edid ! (i + 5 + j))]"
    have t: "take (j + 1) ?m = take j modelname @ [name_byte (edid ! (i + 5 + j))]"
      using True "1.prems" by (simp add: take_Suc_conv_app_nth)
    have eq: "(if edid ! (i + 5 + j) = 0x0A then modelname[j := 0x00]
               else modelname[j := edid ! (i + 5 + j)]) = ?m"
      by (simp add: name_byte_def)
    have "name_loop edid i j modelname = name_loop edid i (j + 1) ?m"
      using True "1.prems" by (subst name_loop.simps) (simp add: name_byte_def)
    also have "\<dots> = Inr (take (j + 1) ?m @ map (\<lambda>k. name_byte (edid ! (i + 5 + k))) [j + 1..<13])"
      using True "1.prems" "1.IH" unfolding eq by simp
    finally show ?thesis using t by (simp add: u)
  next
    case False
    then show ?thesis using "1.prems" by (subst name_loop.simps) simp
  qed
qed

lemma name_loop_field:
  "i + 18 \<le> length edid \<Longrightarrow> length modelname = 13 \<Longrightarrow>
   name_loop edid i 0 modelname = Inr (name_field edid i)"
  by (simp add: name_loop_eq name_field_def)

lemma length_name_field [simp]: "length (name_field edid i) = 13"
  by (simp add: name_field_def)

lemma desc_loop_step:
  "i + 18 \<le> length edid \<Longrightarrow> i < 0x7E \<Longrightarrow> length modelname = 13 \<Longrightarrow>
   desc_loop edid i modelname =
     desc_loop edid (i + 0x12) (if name_tagged edid i then name_field edid i else modelname)"
  by (subst desc_loop.simps) (simp add: name_loop_field name_tagged_def)

lemma desc_loop_end: "desc_loop edid 0x7E modelname = Inr modelname"
  by (subst desc_loop.simps) simp

lemma desc_loop_scan:
  assumes "128 \<le> length edid" and "length modelname = 13"
  shows "desc_loop edid 0x36 modelname =
           Inr (foldl (\<lambda>m i. if name_tagged edid i then name_field edid i else m)
                  modelname descriptor_offsets)"
proof -
  let ?s = "\<lambda>m i. if name_tagged edid i then name_field edid i else m"
  have len: "length (?s m i) = 13" if "length m = 13" for m i
    using that by simp
  have "desc_loop edid 0x36 modelname = desc_loop edid 0x48 (?s modelname 0x36)"
    using desc_loop_step [of "0x36" edid modelname] assms by simp
  also have "\<dots> = desc_loop edid 0x5A (?s (?s modelname 0x36) 0x48)"
    using desc_loop_step [of "0x48" edid "?s modelname 0x36"] assms by simp
  also have "\<dots> = desc_loop edid 0x6C (?s (?s (?s modelname 0x36) 0x48) 0x5A)"
    using desc_loop_step [of "0x5A" edid "?s (?s modelname 0x36) 0x48"] assms by simp
  also have "\<dots> = desc_loop edid 0x7E (?s (?s (?s (?s modelname 0x36) 0x48) 0x5A) 0x6C)"
    using desc_loop_step [of "0x6C" edid "?s (?s (?s modelname 0x36) 0x48) 0x5A"] assms by simp
  finally show ?thesis
    by (simp add: desc_loop_end descriptor_offsets_def)
qed

lemma foldl_last_match:
  "foldl (\<lambda>m i. if P i then f i else m) m0 xs =
     (if filter P xs = [] then m0 else f (last (filter P xs)))"
  by (induction xs rule: rev_induct) simp_all

lemma parseedid_128:
  assumes "128 \<le> length edid" and "length modelname = 13"
  shows "parseedid edid modelname =
     Inr \<lparr>pr_log = (if sum_list (take 128 edid) \<noteq> 0 then [ChecksumFailed] else []) @
                    map (\<lambda>k. HeaderIncorrect) (filter (\<lambda>k. \<not> header_byte_ok edid k) [0..<8]),
          pr_modelname = (if filter (name_tagged edid) descriptor_offsets = [] then modelname
                          else name_field edid (last (filter (name_tagged edid) descriptor_offsets))),
          pr_return = 0\<rparr>"
  using assms
  by (simp add: parseedid_def checksum_loop_eq header_loop_eq desc_loop_scan foldl_last_match)

lemma checksum_loop_short:
  "length edid < 128 \<Longrightarrow> i \<le> length edid \<Longrightarrow> checksum_loop edid i sm = Inl OutOfBoundsRead"
proof (induction edid i sm rule: checksum_loop.induct)
  case (1 edid i sm)
  show ?case
  proof (cases "i < length edid")
    case True
    with "1.prems" "1.IH" show ?thesis by (subst checksum_loop.simps) simp
  next
    case False
    with "1.prems" show ?thesis by (subst checksum_loop.simps) simp
  qed
qed

lemma parseedid_short: "length edid < 128 \<Longrightarrow> parseedid edid modelname = Inl OutOfBoundsRead"
  by (simp add: parseedid_def checksum_loop_short)

lemma name_field_take_drop:
  "i + 18 \<le> length edid \<Longrightarrow> name_field edid i = map name_byte (take 13 (drop (i + 5) edid))"
  by (rule nth_equalityI) (simp_all add: name_field_def add.assoc)

lemma takeWhile_name_bytes:
  "takeWhile (\<lambda>b. b \<noteq> 0) (map name_byte xs) = takeWhile (\<lambda>b. b \<noteq> 0x0A \<and> b \<noteq> 0) xs"
  by (induction xs) (simp_all add: name_byte_def)

lemma c_str_name_bytes:
  "0x0A \<in> set xs \<or> 0 \<in> set xs \<Longrightarrow>
   c_str (map name_byte xs) = Some (takeWhile (\<lambda>b. b \<noteq> 0x0A \<and> b \<noteq> 0) xs)"
proof -
  assume "0x0A \<in> set xs \<or> 0 \<in> set xs"
  then obtain b where "b \<in> set xs" and "name_byte b = 0"
    by (auto simp: name_byte_def)
  then have "0 \<in> set (map name_byte xs)"
    by (metis image_eqI set_map)
  then show ?thesis
    by (simp add: c_str_def takeWhile_name_bytes del: set_map)
qed

lemma offsets_in_block: "i \<in> set descriptor_offsets \<Longrightarrow> i + 18 \<le> 126"
  by (auto simp: descriptor_offsets_def)

lemma c_str_zeros: "c_str (replicate 13 0) = Some []"
  by (simp add: c_str_def)

lemma nth_of_take_drop:
  "take n (drop k xs) = ys \<Longrightarrow> j < length ys \<Longrightarrow> xs ! (k + j) = ys ! j"
  by (metis length_take min_less_iff_conj nth_drop nth_take le_add1 length_drop less_diff_conv add.commute nat_le_linear not_less drop_all list.size(3) not_less_zero)

lemma c_str_abc: "c_str ([0x41, 0x42, 0x43, 0x00] @ rest) = Some [0x41, 0x42, 0x43]"
  by (simp add: c_str_def)

lemma chars_of_abc: "chars_of [0x41, 0x42, 0x43] = ''ABC''"
  by code_simp

section \<open>Claims about the identification decoder\<close>

text \<open>
  Claim C3, as the code has it.  For every 128-byte block the decoder scans the
  blocks at \<open>0x36, 0x48, 0x5A, 0x6C\<close>.  A block passes when its first byte is
  \<open>0x00\<close> and its fourth byte is \<open>0xFC\<close>; the second byte is not looked at.  The
  buffer then holds the 13 bytes that start 5 bytes into the last block that passes,
  each \<open>0x0A\<close> stored as \<open>0x00\<close>; read as a string, the name ends at the first of
  them that is \<open>0x0A\<close> or \<open>0x00\<close>, when there is one.  When no block passes the
  buffer keeps its zeros and the name is empty.  A block with
  \<open>00 00 00 FC 00 'A' 'B' 'C' 0A\<close> at \<open>0x36\<close> and no later block that passes decodes to
  \<open>ABC\<close>.
\<close>

theorem c3_model_name:
  assumes len: "length edid = 128"
  shows "\<exists>r. parseedid edid (replicate 13 0) = Inr r \<and>
     pr_modelname r =
       (if filter (name_tagged edid) descriptor_offsets = [] then replicate 13 0
        else name_field edid (last (filter (name_tagged edid) descriptor_offsets))) \<and>
     (\<forall>i\<in>set descriptor_offsets.
        name_field edid i = map name_byte (take 13 (drop (i + 5) edid)) \<and>
        (0x0A \<in> set (take 13 (drop (i + 5) edid)) \<or> 0x00 \<in> set (take 13 (drop (i + 5) edid)) \<longrightarrow>
         c_str (name_field edid i) =
           Some (takeWhile (\<lambda>b. b \<noteq> 0x0A \<and> b \<noteq> 0x00) (take 13 (drop (i + 5) edid))))) \<and>
     (filter (name_tagged edid) descriptor_offsets = [] \<longrightarrow> c_str (pr_modelname r) = Some []) \<and>
     (take 9 (drop 0x36 edid) = [0x00, 0x00, 0x00, 0xFC, 0x00, 0x41, 0x42, 0x43, 0x0A] \<and>
      \<not> name_tagged edid 0x48 \<and> \<not> name_tagged edid 0x5A \<and> \<not> name_tagged edid 0x6C \<longrightarrow>
      map_option chars_of (c_str (pr_modelname r)) = Some ''ABC'')"
proof -
  let ?ms = "filter (name_tagged edid) descriptor_offsets"
  define r where "r = \<lparr>pr_log = (if sum_list (take 128 edid) \<noteq> 0 then [ChecksumFailed] else []) @
                map (\<lambda>k. HeaderIncorrect) (filter (\<lambda>k. \<not> header_byte_ok edid k) [0..<8]),
             pr_modelname = (if ?ms = [] then replicate 13 0 else name_field edid (last ?ms)),
             pr_return = 0\<rparr>"
  have p: "parseedid edid (replicate 13 0) = Inr r"
    using parseedid_128 [of edid "replicate 13 0"] len by (simp add: r_def)
  have a: "pr_modelname r =
       (if ?ms = [] then replicate 13 0 else name_field edid (last ?ms))"
    by (simp add: r_def)
  have b: "\<forall>i\<in>set descriptor_offsets.
        name_field edid i = map name_byte (take 13 (drop (i + 5) edid)) \<and>
        (0x0A \<in> set (take 13 (drop (i + 5) edid)) \<or> 0x00 \<in> set (take 13 (drop (i + 5) edid)) \<longrightarrow>
         c_str (name_field edid i) =
           Some (takeWhile (\<lambda>b. b \<noteq> 0x0A \<and> b \<noteq> 0x00) (take 13 (drop (i + 5) edid))))"
  proof
    fix i assume "i \<in> set descriptor_offsets"
    then have "i + 18 \<le> length edid" using offsets_in_block [of i] len by simp
    then have nf: "name_field edid i = map name_byte (take 13 (drop (i + 5) edid))"
      by (rule name_field_take_drop)
    show "name_field edid i = map name_byte (take 13 (drop (i + 5) edid)) \<and>
        (0x0A \<in> set (take 13 (drop (i + 5) edid)) \<or> 0x00 \<in> set (take 13 (drop (i + 5) edid)) \<longrightarrow>
         c_str (name_field edid i) =
           Some (takeWhile (\<lambda>b. b \<noteq> 0x0A \<and> b \<noteq> 0x00) (take 13 (drop (i + 5) edid))))"
      using nf c_str_name_bytes [of "take 13 (drop (i + 5) edid)"] by simp
  qed
  have c: "?ms = [] \<longrightarrow> c_str (pr_modelname r) = Some []"
    by (simp add: a c_str_zeros)
  have d: "take 9 (drop 0x36 edid) = [0x00, 0x00, 0x00, 0xFC, 0x00, 0x41, 0x42, 0x43, 0x0A] \<and>
      \<not> name_tagged edid 0x48 \<and> \<not> name_tagged edid 0x5A \<and> \<not> name_tagged edid 0x6C \<longrightarrow>
      map_option chars_of (c_str (pr_modelname r)) = Some ''ABC''"
  proof (intro impI, elim conjE)
    assume ex: "take 9 (drop 0x36 edid) = [0x00, 0x00, 0x00, 0xFC, 0x00, 0x41, 0x42, 0x43, 0x0A]"
      and no: "\<not> name_tagged edid 0x48" "\<not> name_tagged edid 0x5A" "\<not> name_tagged edid 0x6C"
    have n: "edid ! (0x36 + j) = [0x00, 0x00, 0x00, 0xFC, 0x00, 0x41, 0x42, 0x43, 0x0A] ! j"
      if "j < 9" for j
      using nth_of_take_drop [OF ex, of j] that by simp
    have e: "edid ! 0x36 = 0x00" "edid ! 0x39 = 0xFC" "edid ! 0x3B = 0x41" "edid ! 0x3C = 0x42"
      "edid ! 0x3D = 0x43" "edid ! 0x3E = 0x0A"
      using n [of 0] n [of 3] n [of 5] n [of 6] n [of 7] n [of 8] by simp_all
    have ms: "?ms = [0x36]"
      using no e by (simp add: descriptor_offsets_def name_tagged_def)
    have "name_field edid 0x36 = map name_byte (take 13 (drop (0x36 + 5) edid))"
      using name_field_take_drop [of "0x36" edid] len by simp
    have nf: "take 4 (name_field edid 0x36) = [0x41, 0x42, 0x43, 0x00]"
      using e by (simp add: name_field_def upt_rec name_byte_def)
    have "name_field edid 0x36 = take 4 (name_field edid 0x36) @ drop 4 (name_field edid 0x36)"
      by simp
    then have "name_field edid 0x36 = [0x41, 0x42, 0x43, 0x00] @ drop 4 (name_field edid 0x36)"
      using nf by simp
    then have "c_str (name_field edid 0x36) = Some [0x41, 0x42, 0x43]"
      using c_str_abc [of "drop 4 (name_field edid 0x36)"] by simp
    then show "map_option chars_of (c_str (pr_modelname r)) = Some ''ABC''"
      using ms by (simp add: a chars_of_abc)
  qed
  from p a b c d show ?thesis by blast
qed

theorem c3_model_name_witness:
  "length abc_block = 128 \<and>
   take 9 (drop 0x36 abc_block) = [0x00, 0x00, 0x00, 0xFC, 0x00, 0x41, 0x42, 0x43, 0x0A] \<and>
   filter (name_tagged abc_block) descriptor_offsets = [0x36] \<and>
   0x0A \<in> set (take 13 (drop (0x36 + 5) abc_block)) \<and>
   (\<exists>r. parseedid abc_block (replicate 13 0) = Inr r \<and>
        pr_modelname r =
          [0x41, 0x42, 0x43, 0x00, 0x20, 0x20, 0x20, 0x20, 0x20, 0x20, 0x20, 0x20, 0x20] \<and>
        c_str (pr_modelname r) = Some [0x41, 0x42, 0x43] \<and>
        map_option chars_of (c_str (pr_modelname r)) = Some ''ABC'') \<and>
   length (replicate 128 (0 :: byte)) = 128 \<and>
   filter (name_tagged (replicate 128 0)) descriptor_offsets = [] \<and>
   (\<exists>r. parseedid (replicate 128 0) (replicate 13 0) = Inr r \<and>
        c_str (pr_modelname r) = Some [])"
proof -
  have l: "length abc_block = 128" by code_simp
  have t: "take 9 (drop 0x36 abc_block) = [0x00, 0x00, 0x00, 0xFC, 0x00, 0x41, 0x42, 0x43, 0x0A]"
    by code_simp
  have f: "filter (name_tagged abc_block) descriptor_offsets = [0x36]" by code_simp
  have n: "\<not> name_tagged abc_block 0x48" "\<not> name_tagged abc_block 0x5A"
    "\<not> name_tagged abc_block 0x6C" by code_simp+
  have m: "0x0A \<in> set (take 13 (drop (0x36 + 5) abc_block))" by code_simp
  have nf: "name_field abc_block 0x36 =
      [0x41, 0x42, 0x43, 0x00, 0x20, 0x20, 0x20, 0x20, 0x20, 0x20, 0x20, 0x20, 0x20]"
    by code_simp
  have tw: "takeWhile (\<lambda>b. b \<noteq> 0x0A \<and> b \<noteq> 0x00) (take 13 (drop (0x36 + 5) abc_block)) =
      [0x41, 0x42, 0x43]"
    by code_simp
  have i: "0x36 \<in> set descriptor_offsets" by code_simp
  from c3_model_name [OF l] obtain r where
    p: "parseedid abc_block (replicate 13 0) = Inr r" and
    a: "pr_modelname r =
       (if filter (name_tagged abc_block) descriptor_offsets = [] then replicate 13 0
        else name_field abc_block (last (filter (name_tagged abc_block) descriptor_offsets)))" and
    b: "\<forall>i\<in>set descriptor_offsets.
        name_field abc_block i = map name_byte (take 13 (drop (i + 5) abc_block)) \<and>
        (0x0A \<in> set (take 13 (drop (i + 5) abc_block)) \<or>
         0x00 \<in> set (take 13 (drop (i + 5) abc_block)) \<longrightarrow>
         c_str (name_field abc_block i) =
           Some (takeWhile (\<lambda>b. b \<noteq> 0x0A \<and> b \<noteq> 0x00) (take 13 (drop (i + 5) abc_block))))" and
    d: "take 9 (drop 0x36 abc_block) = [0x00, 0x00, 0x00, 0xFC, 0x00, 0x41, 0x42, 0x43, 0x0A] \<and>
      \<not> name_tagged abc_block 0x48 \<and> \<not> name_tagged abc_block 0x5A \<and>
      \<not> name_tagged abc_block 0x6C \<longrightarrow>
      map_option chars_of (c_str (pr_modelname r)) = Some ''ABC''"
    by blast
  have a': "pr_modelname r = name_field abc_block 0x36"
    using a f by simp
  have c: "c_str (name_field abc_block 0x36) = Some [0x41, 0x42, 0x43]"
    using b i m tw by (metis (no_types, lifting))
  have d': "map_option chars_of (c_str (pr_modelname r)) = Some ''ABC''"
    using d t n by blast
  have abc: "\<exists>r. parseedid abc_block (replicate 13 0) = Inr r \<and>
        pr_modelname r =
          [0x41, 0x42, 0x43, 0x00, 0x20, 0x20, 0x20, 0x20, 0x20, 0x20, 0x20, 0x20, 0x20] \<and>
        c_str (pr_modelname r) = Some [0x41, 0x42, 0x43] \<and>
        map_option chars_of (c_str (pr_modelname r)) = Some ''ABC''"
    using p a' nf c d' by (metis (no_types, lifting))
  have lz: "length (replicate 128 (0 :: byte)) = 128" by simp
  have fz: "filter (name_tagged (replicate 128 0)) descriptor_offsets = []" by code_simp
  from c3_model_name [OF lz] obtain rz where
    pz: "parseedid (replicate 128 0) (replicate 13 0) = Inr rz" and
    cz: "filter (name_tagged (replicate 128 0)) descriptor_offsets = [] \<longrightarrow>
           c_str (pr_modelname rz) = Some []"
    by blast
  have zero: "\<exists>r. parseedid (replicate 128 0) (replicate 13 0) = Inr r \<and>
        c_str (pr_modelname r) = Some []"
    using pz cz fz by blast
  from l t f m abc lz fz zero show ?thesis by blast
qed

text \<open>
  Claim C3 as stated fails: in \<open>second_byte_block\<close> no scanned block starts with
  \<open>0x00 0x00\<close> and carries the tag, so the claim gives no name, and the decoder
  yields \<open>ABC\<close>.
\<close>

theorem c3_second_byte_counterexample:
  "length second_byte_block = 128 \<and>
   filter (spec_name_descriptor second_byte_block) descriptor_offsets = [] \<and>
   map_sum id (map_option chars_of \<circ> c_str \<circ> pr_modelname)
     (parseedid second_byte_block (replicate 13 0)) = Inr (Some ''ABC'')"
  by code_simp

text \<open>
  Claim C9.  When more than one scanned block passes the decoder's model-name test, the
  buffer holds the name bytes of the last of them in scan order.
\<close>

theorem c9_last_name_descriptor_wins:
  assumes "length edid = 128" and "length modelname = 13"
    and "1 < length (filter (name_tagged edid) descriptor_offsets)"
  shows "\<exists>r. parseedid edid modelname = Inr r \<and>
     pr_modelname r = name_field edid (last (filter (name_tagged edid) descriptor_offsets))"
proof -
  from assms(3) have "filter (name_tagged edid) descriptor_offsets \<noteq> []" by auto
  then show ?thesis
    using parseedid_128 [of edid modelname] assms(1,2) by simp
qed

theorem c9_last_name_descriptor_wins_witness:
  "length two_names_block = 128 \<and>
   filter (name_tagged two_names_block) descriptor_offsets = [0x36, 0x48] \<and>
   name_field two_names_block 0x36 =
     [0x41, 0x42, 0x43, 0x00, 0x20, 0x20, 0x20, 0x20, 0x20, 0x20, 0x20, 0x20, 0x20] \<and>
   (\<exists>r. parseedid two_names_block (replicate 13 0) = Inr r \<and>
        pr_modelname r =
          [0x58, 0x59, 0x00, 0x20, 0x20, 0x20, 0x20, 0x20, 0x20, 0x20, 0x20, 0x20, 0x20])"
proof -
  have l: "length two_names_block = 128" by code_simp
  have f: "filter (name_tagged two_names_block) descriptor_offsets = [0x36, 0x48]" by code_simp
  have n1: "name_field two_names_block 0x36 =
     [0x41, 0x42, 0x43, 0x00, 0x20, 0x20, 0x20, 0x20, 0x20, 0x20, 0x20, 0x20, 0x20]" by code_simp
  have n2: "name_field two_names_block 0x48 =
     [0x58, 0x59, 0x00, 0x20, 0x20, 0x20, 0x20, 0x20, 0x20, 0x20, 0x20, 0x20, 0x20]" by code_simp
  have "\<exists>r. parseedid two_names_block (replicate 13 0) = Inr r \<and>
     pr_modelname r =
       name_field two_names_block (last (filter (name_tagged two_names_block) descriptor_offsets))"
    using c9_last_name_descriptor_wins [of two_names_block "replicate 13 0"] l f by simp
  then show ?thesis
    using l f n1 n2 by simp
qed

lemma last_tagged:
  assumes "i \<in> set descriptor_offsets" and "name_tagged edid i"
    and "\<forall>k\<in>set descriptor_offsets. i < k \<longrightarrow> \<not> name_tagged edid k"
  shows "filter (name_tagged edid) descriptor_offsets \<noteq> [] \<and>
         last (filter (name_tagged edid) descriptor_offsets) = i"
  using assms by (auto simp: descriptor_offsets_def)

text \<open>
  Claim C10.  When the block at \<open>i\<close> passes the test, the name loop writes all
  thirteen bytes of the destination: \<open>0x00\<close> where the source byte is \<open>0x0A\<close>, the
  source byte itself everywhere else, also behind the first \<open>0x0A\<close>.  When none of
  the thirteen source bytes is \<open>0x0A\<close> the buffer is a plain copy; when moreover none
  is \<open>0x00\<close> the buffer holds no terminator at all.  The descriptor loop goes on with
  that buffer, and when the block is the last one that passes, these thirteen bytes are
  the buffer the decoder returns.  When no block passes, the decoder returns the buffer
  as it got it.
\<close>

theorem c10_name_buffer_write:
  assumes "i + 18 \<le> length edid" and "length modelname = 13"
  shows "\<exists>m'. name_loop edid i 0 modelname = Inr m' \<and> length m' = 13 \<and>
     (\<forall>j<13. m' ! j = (if edid ! (i + 5 + j) = 0x0A then 0x00 else edid ! (i + 5 + j))) \<and>
     ((\<forall>j<13. edid ! (i + 5 + j) \<noteq> 0x0A) \<longrightarrow> m' = take 13 (drop (i + 5) edid)) \<and>
     ((\<forall>j<13. edid ! (i + 5 + j) \<noteq> 0x0A \<and> edid ! (i + 5 + j) \<noteq> 0x00) \<longrightarrow>
        0x00 \<notin> set m' \<and> c_str m' = None) \<and>
     (i < 0x7E \<and> name_tagged edid i \<longrightarrow>
        desc_loop edid i modelname = desc_loop edid (i + 0x12) m') \<and>
     (length edid = 128 \<and> i \<in> set descriptor_offsets \<and> name_tagged edid i \<and>
      (\<forall>k\<in>set descriptor_offsets. i < k \<longrightarrow> \<not> name_tagged edid k) \<longrightarrow>
        desc_loop edid 0x36 modelname = Inr m' \<and>
        (\<exists>r. parseedid edid modelname = Inr r \<and> pr_modelname r = m')) \<and>
     (length edid = 128 \<and> filter (name_tagged edid) descriptor_offsets = [] \<longrightarrow>
        desc_loop edid 0x36 modelname = Inr modelname \<and>
        (\<exists>r. parseedid edid modelname = Inr r \<and> pr_modelname r = modelname))"
proof -
  have nl: "name_loop edid i 0 modelname = Inr (name_field edid i)"
    using assms by (rule name_loop_field)
  have ln: "length (name_field edid i) = 13" by simp
  have pt: "\<forall>j<13. name_field edid i ! j =
      (if edid ! (i + 5 + j) = 0x0A then 0x00 else edid ! (i + 5 + j))"
    by (simp add: name_field_def name_byte_def)
  have cp: "(\<forall>j<13. edid ! (i + 5 + j) \<noteq> 0x0A) \<longrightarrow> name_field edid i = take 13 (drop (i + 5) edid)"
  proof
    assume "\<forall>j<13. edid ! (i + 5 + j) \<noteq> 0x0A"
    then show "name_field edid i = take 13 (drop (i + 5) edid)"
      using assms(1) by (intro nth_equalityI) (simp_all add: name_field_def name_byte_def add.assoc)
  qed
  have nz: "(\<forall>j<13. edid ! (i + 5 + j) \<noteq> 0x0A \<and> edid ! (i + 5 + j) \<noteq> 0x00) \<longrightarrow>
        0x00 \<notin> set (name_field edid i) \<and> c_str (name_field edid i) = None"
  proof
    assume h: "\<forall>j<13. edid ! (i + 5 + j) \<noteq> 0x0A \<and> edid ! (i + 5 + j) \<noteq> 0x00"
    have "0x00 \<notin> set (name_field edid i)"
    proof
      assume "0x00 \<in> set (name_field edid i)"
      then obtain j where "j < 13" and "name_field edid i ! j = 0x00"
        by (metis in_set_conv_nth length_name_field)
      with h pt show False by (simp split: if_splits)
    qed
    then show "0x00 \<notin> set (name_field edid i) \<and> c_str (name_field edid i) = None"
      by (simp add: c_str_def)
  qed
  have st: "i < 0x7E \<and> name_tagged edid i \<longrightarrow>
        desc_loop edid i modelname = desc_loop edid (i + 0x12) (name_field edid i)"
    using desc_loop_step [of i edid modelname] assms by simp
  have fin: "length edid = 128 \<and> i \<in> set descriptor_offsets \<and> name_tagged edid i \<and>
      (\<forall>k\<in>set descriptor_offsets. i < k \<longrightarrow> \<not> name_tagged edid k) \<longrightarrow>
        desc_loop edid 0x36 modelname = Inr (name_field edid i) \<and>
        (\<exists>r. parseedid edid modelname = Inr r \<and> pr_modelname r = name_field edid i)"
  proof (intro impI, elim conjE)
    assume l: "length edid = 128" and m: "i \<in> set descriptor_offsets" and t: "name_tagged edid i"
      and a: "\<forall>k\<in>set descriptor_offsets. i < k \<longrightarrow> \<not> name_tagged edid k"
    note lt = last_tagged [OF m t a]
    have "desc_loop edid 0x36 modelname = Inr (name_field edid i)"
      using desc_loop_scan [of edid modelname] l assms(2) lt by (simp add: foldl_last_match)
    moreover have "\<exists>r. parseedid edid modelname = Inr r \<and> pr_modelname r = name_field edid i"
      using parseedid_128 [of edid modelname] l assms(2) lt by simp
    ultimately show "desc_loop edid 0x36 modelname = Inr (name_field edid i) \<and>
        (\<exists>r. parseedid edid modelname = Inr r \<and> pr_modelname r = name_field edid i)"
      by simp
  qed
  have non: "length edid = 128 \<and> filter (name_tagged edid) descriptor_offsets = [] \<longrightarrow>
        desc_loop edid 0x36 modelname = Inr modelname \<and>
        (\<exists>r. parseedid edid modelname = Inr r \<and> pr_modelname r = modelname)"
  proof (intro impI, elim conjE)
    assume l: "length edid = 128" and f: "filter (name_tagged edid) descriptor_offsets = []"
    have "desc_loop edid 0x36 modelname = Inr modelname"
      using desc_loop_scan [of edid modelname] l assms(2) f by (simp add: foldl_last_match)
    moreover have "\<exists>r. parseedid edid modelname = Inr r \<and> pr_modelname r = modelname"
      using parseedid_128 [of edid modelname] l assms(2) f by simp
    ultimately show "desc_loop edid 0x36 modelname = Inr modelname \<and>
        (\<exists>r. parseedid edid modelname = Inr r \<and> pr_modelname r = modelname)"
      by simp
  qed
  show ?thesis
    by (intro exI [of _ "name_field edid i"] conjI nl ln pt cp nz st fin non)
qed

theorem c10_name_buffer_write_witness:
  "0x36 + 18 \<le> length abc_block \<and> length (replicate 13 (0 :: byte)) = 13 \<and>
   length abc_block = 128 \<and> filter (name_tagged abc_block) descriptor_offsets = [0x36] \<and>
   take 13 (drop (0x36 + 5) abc_block) =
     [0x41, 0x42, 0x43, 0x0A, 0x20, 0x20, 0x20, 0x20, 0x20, 0x20, 0x20, 0x20, 0x20] \<and>
   name_loop abc_block 0x36 0 (replicate 13 0) =
     Inr [0x41, 0x42, 0x43, 0x00, 0x20, 0x20, 0x20, 0x20, 0x20, 0x20, 0x20, 0x20, 0x20] \<and>
   desc_loop abc_block 0x36 (replicate 13 0) =
     Inr [0x41, 0x42, 0x43, 0x00, 0x20, 0x20, 0x20, 0x20, 0x20, 0x20, 0x20, 0x20, 0x20] \<and>
   (\<exists>r. parseedid abc_block (replicate 13 0) = Inr r \<and>
      pr_modelname r =
        [0x41, 0x42, 0x43, 0x00, 0x20, 0x20, 0x20, 0x20, 0x20, 0x20, 0x20, 0x20, 0x20]) \<and>
   0x36 + 18 \<le> length full_name_block \<and> length full_name_block = 128 \<and>
   filter (name_tagged full_name_block) descriptor_offsets = [0x36] \<and>
   (\<exists>r. parseedid full_name_block (replicate 13 0) = Inr r \<and>
      pr_modelname r =
        [0x41, 0x42, 0x43, 0x44, 0x45, 0x46, 0x47, 0x48, 0x49, 0x4A, 0x4B, 0x4C, 0x4D] \<and>
      0x00 \<notin> set (pr_modelname r) \<and> c_str (pr_modelname r) = None) \<and>
   filter (name_tagged (replicate 128 0)) descriptor_offsets = [] \<and>
   (\<exists>r. parseedid (replicate 128 0) (replicate 13 0x55) = Inr r \<and>
      pr_modelname r = replicate 13 0x55)"
proof -
  let ?abc = "[0x41, 0x42, 0x43, 0x00, 0x20, 0x20, 0x20, 0x20, 0x20, 0x20, 0x20, 0x20, 0x20] :: byte list"
  have l1: "0x36 + 18 \<le> length abc_block" by code_simp
  have l2: "0x36 + 18 \<le> length full_name_block" by code_simp
  have lz: "0x36 + 18 \<le> length (replicate 128 (0 :: byte))" by simp
  have l0: "length (replicate 13 (0 :: byte)) = 13" by simp
  have l5: "length (replicate 13 (0x55 :: byte)) = 13" by simp
  have n1: "length abc_block = 128" by code_simp
  have n2: "length full_name_block = 128" by code_simp
  have nz: "length (replicate 128 (0 :: byte)) = 128" by simp
  have f1: "filter (name_tagged abc_block) descriptor_offsets = [0x36]" by code_simp
  have f2: "filter (name_tagged full_name_block) descriptor_offsets = [0x36]" by code_simp
  have fz: "filter (name_tagged (replicate 128 0)) descriptor_offsets = []" by code_simp
  have i: "0x36 \<in> set descriptor_offsets" by code_simp
  have t1: "name_tagged abc_block 0x36" by code_simp
  have t2: "name_tagged full_name_block 0x36" by code_simp
  have u1: "\<not> name_tagged abc_block 0x48" "\<not> name_tagged abc_block 0x5A"
    "\<not> name_tagged abc_block 0x6C" by code_simp+
  have u2: "\<not> name_tagged full_name_block 0x48" "\<not> name_tagged full_name_block 0x5A"
    "\<not> name_tagged full_name_block 0x6C" by code_simp+
  have a1: "\<forall>k\<in>set descriptor_offsets. 0x36 < k \<longrightarrow> \<not> name_tagged abc_block k"
    using u1 by (simp add: descriptor_offsets_def)
  have a2: "\<forall>k\<in>set descriptor_offsets. 0x36 < k \<longrightarrow> \<not> name_tagged full_name_block k"
    using u2 by (simp add: descriptor_offsets_def)
  have h1: "length abc_block = 128 \<and> 0x36 \<in> set descriptor_offsets \<and> name_tagged abc_block 0x36 \<and>
      (\<forall>k\<in>set descriptor_offsets. 0x36 < k \<longrightarrow> \<not> name_tagged abc_block k)"
    by (intro conjI n1 i t1 a1)
  have h2: "length full_name_block = 128 \<and> 0x36 \<in> set descriptor_offsets \<and>
      name_tagged full_name_block 0x36 \<and>
      (\<forall>k\<in>set descriptor_offsets. 0x36 < k \<longrightarrow> \<not> name_tagged full_name_block k)"
    by (intro conjI n2 i t2 a2)
  have hz: "length (replicate 128 (0 :: byte)) = 128 \<and>
      filter (name_tagged (replicate 128 0)) descriptor_offsets = []"
    by (intro conjI nz fz)
  have src: "take 13 (drop (0x36 + 5) abc_block) =
     [0x41, 0x42, 0x43, 0x0A, 0x20, 0x20, 0x20, 0x20, 0x20, 0x20, 0x20, 0x20, 0x20]"
    by code_simp
  have pw: "\<forall>j<13. (if abc_block ! (0x36 + 5 + j) = 0x0A then 0x00
                     else abc_block ! (0x36 + 5 + j)) = ?abc ! j"
    by code_simp
  have full: "take 13 (drop (0x36 + 5) full_name_block) =
     [0x41, 0x42, 0x43, 0x44, 0x45, 0x46, 0x47, 0x48, 0x49, 0x4A, 0x4B, 0x4C, 0x4D]"
    by code_simp
  have nox: "\<forall>j<13. full_name_block ! (0x36 + 5 + j) \<noteq> 0x0A \<and>
      full_name_block ! (0x36 + 5 + j) \<noteq> 0x00"
    by code_simp
  from c10_name_buffer_write [OF l1 l0] obtain m1 where
    b1: "name_loop abc_block 0x36 0 (replicate 13 0) = Inr m1" and
    b2: "length m1 = 13" and
    b3: "\<forall>j<13. m1 ! j = (if abc_block ! (0x36 + 5 + j) = 0x0A then 0x00
                            else abc_block ! (0x36 + 5 + j))" and
    b7: "length abc_block = 128 \<and> 0x36 \<in> set descriptor_offsets \<and> name_tagged abc_block 0x36 \<and>
      (\<forall>k\<in>set descriptor_offsets. 0x36 < k \<longrightarrow> \<not> name_tagged abc_block k) \<longrightarrow>
        desc_loop abc_block 0x36 (replicate 13 0) = Inr m1 \<and>
        (\<exists>r. parseedid abc_block (replicate 13 0) = Inr r \<and> pr_modelname r = m1)"
    by blast
  have m1: "m1 = ?abc"
    using b2 b3 pw by (simp add: list_eq_iff_nth_eq)
  have r1: "name_loop abc_block 0x36 0 (replicate 13 0) = Inr ?abc"
    using b1 m1 by simp
  note g1 = mp [OF b7 h1]
  have d1: "desc_loop abc_block 0x36 (replicate 13 0) = Inr ?abc"
    using g1 [THEN conjunct1] by (simp only: m1)
  have p1: "\<exists>r. parseedid abc_block (replicate 13 0) = Inr r \<and> pr_modelname r = ?abc"
    using g1 [THEN conjunct2] by (simp only: m1)
  from c10_name_buffer_write [OF l2 l0] obtain m2 where
    c3: "(\<forall>j<13. full_name_block ! (0x36 + 5 + j) \<noteq> 0x0A) \<longrightarrow>
           m2 = take 13 (drop (0x36 + 5) full_name_block)" and
    c4: "(\<forall>j<13. full_name_block ! (0x36 + 5 + j) \<noteq> 0x0A \<and>
                  full_name_block ! (0x36 + 5 + j) \<noteq> 0x00) \<longrightarrow>
           0x00 \<notin> set m2 \<and> c_str m2 = None" and
    c7: "length full_name_block = 128 \<and> 0x36 \<in> set descriptor_offsets \<and>
      name_tagged full_name_block 0x36 \<and>
      (\<forall>k\<in>set descriptor_offsets. 0x36 < k \<longrightarrow> \<not> name_tagged full_name_block k) \<longrightarrow>
        desc_loop full_name_block 0x36 (replicate 13 0) = Inr m2 \<and>
        (\<exists>r. parseedid full_name_block (replicate 13 0) = Inr r \<and> pr_modelname r = m2)"
    by blast
  have m2: "m2 = [0x41, 0x42, 0x43, 0x44, 0x45, 0x46, 0x47, 0x48, 0x49, 0x4A, 0x4B, 0x4C, 0x4D]"
    using c3 nox full by simp
  have z2: "0x00 \<notin> set m2 \<and> c_str m2 = None"
    using c4 nox by blast
  have p2: "\<exists>r. parseedid full_name_block (replicate 13 0) = Inr r \<and>
      pr_modelname r =
        [0x41, 0x42, 0x43, 0x44, 0x45, 0x46, 0x47, 0x48, 0x49, 0x4A, 0x4B, 0x4C, 0x4D] \<and>
      0x00 \<notin> set (pr_modelname r) \<and> c_str (pr_modelname r) = None"
  proof -
    from mp [OF c7 h2, THEN conjunct2] obtain r where
      "parseedid full_name_block (replicate 13 0) = Inr r" and "pr_modelname r = m2" by blast
    with m2 z2 show ?thesis by simp
  qed
  from c10_name_buffer_write [OF lz l5] obtain m3 where
    e8: "length (replicate 128 (0 :: byte)) = 128 \<and>
      filter (name_tagged (replicate 128 0)) descriptor_offsets = [] \<longrightarrow>
        desc_loop (replicate 128 0) 0x36 (replicate 13 0x55) = Inr (replicate 13 0x55) \<and>
        (\<exists>r. parseedid (replicate 128 0) (replicate 13 0x55) = Inr r \<and>
           pr_modelname r = replicate 13 0x55)"
    by blast
  have p3: "\<exists>r. parseedid (replicate 128 0) (replicate 13 0x55) = Inr r \<and>
      pr_modelname r = replicate 13 0x55"
    using mp [OF e8 hz] by (rule conjunct2)
  show ?thesis
    by (intro conjI l1 l0 n1 f1 src r1 d1 p1 l2 n2 f2 p2 fz p3)
qed

text \<open>
  The header warning is logged exactly when one of the first eight bytes fails the
  loop's test; a block that matches the pattern \<open>00 FF FF FF FF FF FF 00\<close> is never
  reported.
\<close>

lemma header_diagnostic_iff:
  assumes "length edid = 128" and "length modelname = 13"
  shows "\<exists>r. parseedid edid modelname = Inr r \<and>
     (HeaderIncorrect \<in> set (pr_log r) \<longleftrightarrow> (\<exists>i<8. \<not> header_byte_ok edid i))"
proof -
  have "(\<exists>i<8. \<not> header_byte_ok edid i) \<longleftrightarrow> filter (\<lambda>k. \<not> header_byte_ok edid k) [0..<8] \<noteq> []"
    by (auto simp: filter_empty_conv)
  then show ?thesis
    using parseedid_128 [of edid modelname] assms by (auto simp: filter_empty_conv)
qed

lemma spec_header_ok_no_diagnostic:
  assumes "length edid = 128" and "length modelname = 13" and "spec_header_ok edid"
  shows "\<exists>r. parseedid edid modelname = Inr r \<and> HeaderIncorrect \<notin> set (pr_log r)"
proof -
  have "header_byte_ok edid i" if "i < 8" for i
  proof -
    from that have "i \<in> {0, 1, 2, 3, 4, 5, 6, 7}" by auto
    with assms(3) show ?thesis
      by (auto simp: spec_header_ok_def header_byte_ok_def)
  qed
  then show ?thesis
    using header_diagnostic_iff [OF assms(1,2)] by auto
qed

text \<open>
  Claim C4 at the failing input.  The first eight bytes of \<open>ff_header_block\<close> are all
  \<open>0xFF\<close>, which is not the pattern \<open>00 FF FF FF FF FF FF 00\<close>, and the decoder logs
  nothing.
\<close>

theorem c4_ff_header_not_reported:
  "length ff_header_block = 128 \<and> \<not> spec_header_ok ff_header_block \<and>
   map_sum id pr_log (parseedid ff_header_block (replicate 13 0)) = Inr []"
  by code_simp

text \<open>Two blocks that agree on the bytes \<open>0x36\<close> to \<open>0x7D\<close> decode to the same name.\<close>

lemma scanned_bytes_agree:
  assumes eq: "take 72 (drop 0x36 edid') = take 72 (drop 0x36 edid)"
    and len: "length edid = 128" "length edid' = 128"
    and i: "i \<in> set descriptor_offsets"
  shows "name_tagged edid' i = name_tagged edid i \<and> name_field edid' i = name_field edid i"
proof -
  have n: "edid' ! (0x36 + k) = edid ! (0x36 + k)" if "k < 72" for k
  proof -
    have "edid' ! (0x36 + k) = take 72 (drop 0x36 edid') ! k"
      using that len by simp
    also have "\<dots> = take 72 (drop 0x36 edid) ! k" by (simp add: eq)
    also have "\<dots> = edid ! (0x36 + k)" using that len by simp
    finally show ?thesis .
  qed
  have b: "edid' ! (i + k) = edid ! (i + k)" if "k < 18" for k
  proof -
    from i obtain d where "i = 0x36 + d" and "d + 18 \<le> 72"
      by (auto simp: descriptor_offsets_def)
    then show ?thesis using n [of "d + k"] that by (simp add: add.assoc)
  qed
  have "name_tagged edid' i = name_tagged edid i"
    using b [of 0] b [of 3] by (simp add: name_tagged_def)
  moreover have "name_field edid' i = name_field edid i"
    unfolding name_field_def
  proof (rule map_cong [OF refl])
    fix j assume "j \<in> set [0..<13]"
    then have "5 + j < 18" by simp
    then show "name_byte (edid' ! (i + 5 + j)) = name_byte (edid ! (i + 5 + j))"
      using b [of "5 + j"] by (simp add: add.assoc)
  qed
  ultimately show ?thesis by simp
qed

lemma scanned_name_agrees:
  assumes eq: "take 72 (drop 0x36 edid') = take 72 (drop 0x36 edid)"
    and len: "length edid = 128" "length edid' = 128" and lm: "length modelname = 13"
  shows "\<exists>r r'. parseedid edid modelname = Inr r \<and> parseedid edid' modelname = Inr r' \<and>
     pr_modelname r' = pr_modelname r"
proof -
  have f: "filter (name_tagged edid') descriptor_offsets = filter (name_tagged edid) descriptor_offsets"
    using scanned_bytes_agree [OF eq len] by (intro filter_cong) simp_all
  show ?thesis
  proof (cases "filter (name_tagged edid) descriptor_offsets = []")
    case True
    then show ?thesis
      using parseedid_128 [of edid modelname] parseedid_128 [of edid' modelname] len lm f by simp
  next
    case False
    then have "last (filter (name_tagged edid) descriptor_offsets) \<in> set descriptor_offsets"
      by (metis filter_is_subset last_in_set subsetD)
    then have "name_field edid' (last (filter (name_tagged edid) descriptor_offsets)) =
       name_field edid (last (filter (name_tagged edid) descriptor_offsets))"
      using scanned_bytes_agree [OF eq len] by simp
    then show ?thesis
      using parseedid_128 [of edid modelname] parseedid_128 [of edid' modelname] len lm f False
      by simp
  qed
qed

text \<open>
  For every 128-byte block the decoder returns a result.  It logs the checksum warning
  exactly when the sum of the 128 bytes modulo 256 is nonzero and the header warning
  exactly when one of the first eight bytes fails the loop's test, and whatever it logs,
  the buffer holds the name bytes of the last block that passes the test, or is left as
  it was when none does.
\<close>

lemma decoder_diagnostics:
  assumes "length edid = 128" and "length modelname = 13"
  shows "\<exists>r. parseedid edid modelname = Inr r \<and>
     (ChecksumFailed \<in> set (pr_log r) \<longleftrightarrow> sum_list (map unat edid) mod 256 \<noteq> 0) \<and>
     (HeaderIncorrect \<in> set (pr_log r) \<longleftrightarrow> (\<exists>i<8. \<not> header_byte_ok edid i)) \<and>
     pr_modelname r =
       (if filter (name_tagged edid) descriptor_offsets = [] then modelname
        else name_field edid (last (filter (name_tagged edid) descriptor_offsets)))"
proof -
  have "sum_list edid = 0 \<longleftrightarrow> unat (sum_list edid) = 0"
    by (simp add: unat_eq_0)
  then show ?thesis
    using parseedid_128 [of edid modelname] assms
    by (auto simp: unat_sum_list_bytes filter_empty_conv)
qed

lemma damaged_block_decodes:
  "parseedid damaged_block (replicate 13 0) =
     Inr \<lparr>pr_log = [ChecksumFailed, HeaderIncorrect],
          pr_modelname =
            [0x41, 0x42, 0x43, 0x00, 0x20, 0x20, 0x20, 0x20, 0x20, 0x20, 0x20, 0x20, 0x20],
          pr_return = 0\<rparr>"
  by code_simp

text \<open>
  Claim C7 at the failing input.  The property of output \<open>0x42\<close> holds 20 bytes.
  \<open>output_edid_get\<close> accepts it, the length test before the decoder only asks for a
  nonzero length, and the checksum loop reads the bytes 20 to 127 past the end of the
  copy: the claim gives an empty name and diagnostics, the decoder gives neither.  On
  a block of 128 bytes with a wrong header and a wrong sum the page is built and carries
  the name.
\<close>

theorem c7_short_block_overread:
  "length short_block = 20 \<and>
   output_edid_get (example_server_with short_block) 0x42 = Some short_block \<and>
   parseedid short_block (replicate 13 0) = Inl OutOfBoundsRead \<and>
   activate_output (example_server_with short_block) example_res 0x42 = Inl OutOfBoundsRead \<and>
   length damaged_block = 128 \<and>
   map_sum id (map_option page_label)
     (activate_output (example_server_with damaged_block) example_res 0x42) =
     Inr (Some ''HDMI-1(ABC)'')"
  by code_simp

section \<open>The flag tests and the effective vertical total\<close>

lemma mask_bit_DoubleScan: "(w AND RR_DoubleScan \<noteq> 0) = bit (w :: 32 word) 5"
  using and_exp_eq_0_iff_not_bit [of w 5] by (simp add: RR_DoubleScan_def)

lemma mask_bit_Interlace: "(w AND RR_Interlace \<noteq> 0) = bit (w :: 32 word) 4"
  using and_exp_eq_0_iff_not_bit [of w 4] by (simp add: RR_Interlace_def)

lemma mode_refresh_eq:
  "mode_refresh rnd m =
     (if mi_hTotal m \<noteq> 0 \<and> effective_vTotal m \<noteq> 0
      then rnd (rnd (real (unat (mi_dotClock m))) /
                rnd (real (unat (mi_hTotal m)) * effective_vTotal m))
      else 0)"
  by (simp add: mode_refresh_def effective_vTotal_def Let_def)

lemma effective_vTotal_bits:
  "effective_vTotal m =
     (let v1 = (if bit (mi_modeFlags m) 5 then real (unat (mi_vTotal m)) * 2
                else real (unat (mi_vTotal m)))
      in if bit (mi_modeFlags m) 4 then v1 / 2 else v1)"
  by (simp add: effective_vTotal_def Let_def mask_bit_DoubleScan mask_bit_Interlace)

lemma effective_vTotal_zero_iff: "effective_vTotal m = 0 \<longleftrightarrow> mi_vTotal m = 0"
  by (simp add: effective_vTotal_def Let_def unsigned_eq_0_iff)

lemma one_le_real_unat: "w \<noteq> 0 \<Longrightarrow> 1 \<le> real (unat (w :: 32 word))"
proof -
  assume "w \<noteq> 0"
  then have "1 \<le> unat w" by (simp add: unat_eq_0 Suc_le_eq unat_gt_0)
  then show ?thesis by (metis of_nat_1 of_nat_le_iff)
qed

lemma effective_vTotal_half: "mi_vTotal m \<noteq> 0 \<Longrightarrow> 1 / 2 \<le> effective_vTotal m"
  using one_le_real_unat [of "mi_vTotal m"]
  by (simp add: effective_vTotal_def Let_def del: of_nat_unat)

section \<open>Claims about the refresh rate\<close>

text \<open>
  Claim C5.  With nonzero horizontal and vertical totals the rate is the pixel clock
  divided by the product of the horizontal total and the effective vertical total, in
  \<open>double\<close> arithmetic; the effective vertical total is the vertical total, doubled
  first when the doublescan bit is set and halved afterwards when the interlace bit is
  set.  With both bits clear it is the pixel clock divided by the product of the two
  totals.  Without rounding the quotient is exact.
\<close>

theorem c5_refresh_formula:
  assumes "0 < unat (mi_hTotal m)" and "0 < unat (mi_vTotal m)"
  shows "mode_refresh rnd m =
           rnd (rnd (real (unat (mi_dotClock m))) /
                rnd (real (unat (mi_hTotal m)) * effective_vTotal m)) \<and>
         effective_vTotal m =
           (if bit (mi_modeFlags m) 4
            then (if bit (mi_modeFlags m) 5 then real (unat (mi_vTotal m)) * 2
                  else real (unat (mi_vTotal m))) / 2
            else (if bit (mi_modeFlags m) 5 then real (unat (mi_vTotal m)) * 2
                  else real (unat (mi_vTotal m)))) \<and>
         (\<not> bit (mi_modeFlags m) 5 \<and> \<not> bit (mi_modeFlags m) 4 \<longrightarrow>
            mode_refresh rnd m =
              rnd (rnd (real (unat (mi_dotClock m))) /
                   rnd (real (unat (mi_hTotal m)) * real (unat (mi_vTotal m))))) \<and>
         mode_refresh (\<lambda>x. x) m =
           real (unat (mi_dotClock m)) / (real (unat (mi_hTotal m)) * effective_vTotal m)"
proof -
  from assms have nz: "mi_hTotal m \<noteq> 0" "mi_vTotal m \<noteq> 0"
    by (auto simp: unat_gt_0)
  then have e: "effective_vTotal m \<noteq> 0"
    by (simp add: effective_vTotal_zero_iff)
  have r: "mode_refresh f m =
           f (f (real (unat (mi_dotClock m))) /
                f (real (unat (mi_hTotal m)) * effective_vTotal m))" for f
    using nz e by (simp add: mode_refresh_eq)
  have b: "effective_vTotal m =
           (if bit (mi_modeFlags m) 4
            then (if bit (mi_modeFlags m) 5 then real (unat (mi_vTotal m)) * 2
                  else real (unat (mi_vTotal m))) / 2
            else (if bit (mi_modeFlags m) 5 then real (unat (mi_vTotal m)) * 2
                  else real (unat (mi_vTotal m))))"
    by (simp add: effective_vTotal_bits Let_def)
  have c: "\<not> bit (mi_modeFlags m) 5 \<and> \<not> bit (mi_modeFlags m) 4 \<longrightarrow>
            mode_refresh rnd m =
              rnd (rnd (real (unat (mi_dotClock m))) /
                   rnd (real (unat (mi_hTotal m)) * real (unat (mi_vTotal m))))"
    using r [of rnd] by (simp add: b)
  from r [of rnd] b c r [of "\<lambda>x. x"] show ?thesis by blast
qed

theorem c5_refresh_formula_witness:
  "0 < unat (mi_hTotal mode_1080p) \<and> 0 < unat (mi_vTotal mode_1080p) \<and>
   \<not> bit (mi_modeFlags mode_1080p) 5 \<and> \<not> bit (mi_modeFlags mode_1080p) 4 \<and>
   mode_refresh (\<lambda>x. x) mode_1080p = 148500000 / (2200 * 1125) \<and>
   0 < unat (mi_hTotal mode_1080i) \<and> 0 < unat (mi_vTotal mode_1080i) \<and>
   bit (mi_modeFlags mode_1080i) 4 \<and>
   effective_vTotal mode_1080i = 1125 / 2 \<and>
   mode_refresh (\<lambda>x. x) mode_1080i = 74250000 / (2200 * (1125 / 2)) \<and>
   0 < unat (mi_hTotal mode_240d) \<and> 0 < unat (mi_vTotal mode_240d) \<and>
   bit (mi_modeFlags mode_240d) 5 \<and>
   effective_vTotal mode_240d = 262 * 2 \<and>
   mode_refresh (\<lambda>x. x) mode_240d = 12600000 / (400 * (262 * 2))"
proof -
  have h: "0 < unat (mi_hTotal mode_1080p)" "0 < unat (mi_vTotal mode_1080p)"
    "0 < unat (mi_hTotal mode_1080i)" "0 < unat (mi_vTotal mode_1080i)"
    "0 < unat (mi_hTotal mode_240d)" "0 < unat (mi_vTotal mode_240d)"
    by (simp_all add: mode_1080p_def mode_1080i_def mode_240d_def)
  have f: "\<not> bit (mi_modeFlags mode_1080p) 5" "\<not> bit (mi_modeFlags mode_1080p) 4"
    "bit (mi_modeFlags mode_1080i) 4" "\<not> bit (mi_modeFlags mode_1080i) 5"
    "bit (mi_modeFlags mode_240d) 5" "\<not> bit (mi_modeFlags mode_240d) 4"
    by code_simp+
  have v: "real (unat (mi_dotClock mode_1080p)) = 148500000"
    "real (unat (mi_hTotal mode_1080p)) = 2200"
    "real (unat (mi_vTotal mode_1080p)) = 1125"
    "real (unat (mi_dotClock mode_1080i)) = 74250000"
    "real (unat (mi_hTotal mode_1080i)) = 2200"
    "real (unat (mi_vTotal mode_1080i)) = 1125"
    "real (unat (mi_dotClock mode_240d)) = 12600000"
    "real (unat (mi_hTotal mode_240d)) = 400"
    "real (unat (mi_vTotal mode_240d)) = 262"
    by (simp_all add: mode_1080p_def mode_1080i_def mode_240d_def)
  note a = c5_refresh_formula [OF h(1,2), of "\<lambda>x. x"]
  note b = c5_refresh_formula [OF h(3,4), of "\<lambda>x. x"]
  note c = c5_refresh_formula [OF h(5,6), of "\<lambda>x. x"]
  have "mode_refresh (\<lambda>x. x) mode_1080p =
      real (unat (mi_dotClock mode_1080p)) /
        (real (unat (mi_hTotal mode_1080p)) * real (unat (mi_vTotal mode_1080p)))"
    using a f(1,2) by blast
  then have a1: "mode_refresh (\<lambda>x. x) mode_1080p = 148500000 / (2200 * 1125)"
    by (simp only: v)
  have "effective_vTotal mode_1080i = real (unat (mi_vTotal mode_1080i)) / 2"
    using b f(3,4) by (simp only: if_True if_False)
  then have b1: "effective_vTotal mode_1080i = 1125 / 2"
    by (simp only: v)
  have "mode_refresh (\<lambda>x. x) mode_1080i =
      real (unat (mi_dotClock mode_1080i)) /
        (real (unat (mi_hTotal mode_1080i)) * effective_vTotal mode_1080i)"
    using b by blast
  then have b2: "mode_refresh (\<lambda>x. x) mode_1080i = 74250000 / (2200 * (1125 / 2))"
    by (simp only: v b1)
  have "effective_vTotal mode_240d = real (unat (mi_vTotal mode_240d)) * 2"
    using c f(5,6) by (simp only: if_True if_False)
  then have c1: "effective_vTotal mode_240d = 262 * 2"
    by (simp only: v)
  have "mode_refresh (\<lambda>x. x) mode_240d =
      real (unat (mi_dotClock mode_240d)) /
        (real (unat (mi_hTotal mode_240d)) * effective_vTotal mode_240d)"
    using c by blast
  then have c2: "mode_refresh (\<lambda>x. x) mode_240d = 12600000 / (400 * (262 * 2))"
    by (simp only: v c1)
  from h f a1 b1 b2 c1 c2 show ?thesis by blast
qed

text \<open>
  Claim C6.  \<open>mode_refresh\<close> is total.  When the horizontal total is zero or the
  effective vertical total is zero the result is zero, whatever the rounding, and no
  quotient is formed; the effective vertical total is zero exactly when the vertical total
  is.  When a quotient is formed, its exact divisor is at least one half.
\<close>

theorem c6_refresh_zero:
  "(mi_hTotal m = 0 \<or> effective_vTotal m = 0 \<longrightarrow> mode_refresh rnd m = 0) \<and>
   (effective_vTotal m = 0 \<longleftrightarrow> mi_vTotal m = 0) \<and>
   (mi_hTotal m \<noteq> 0 \<and> effective_vTotal m \<noteq> 0 \<longrightarrow>
      mode_refresh rnd m =
        rnd (rnd (real (unat (mi_dotClock m))) /
             rnd (real (unat (mi_hTotal m)) * effective_vTotal m)) \<and>
      1 / 2 \<le> real (unat (mi_hTotal m)) * effective_vTotal m)"
proof -
  have d: "1 / 2 \<le> real (unat (mi_hTotal m)) * effective_vTotal m"
    if "mi_hTotal m \<noteq> 0" and "effective_vTotal m \<noteq> 0"
  proof -
    from that(2) have "mi_vTotal m \<noteq> 0"
      by (simp add: effective_vTotal_zero_iff)
    then have "1 / 2 \<le> effective_vTotal m"
      by (rule effective_vTotal_half)
    moreover have "1 \<le> real (unat (mi_hTotal m))"
      using that(1) by (rule one_le_real_unat)
    ultimately have "1 * (1 / 2) \<le> real (unat (mi_hTotal m)) * effective_vTotal m"
      by (intro mult_mono) simp_all
    then show ?thesis by simp
  qed
  show ?thesis
    using d by (auto simp: mode_refresh_eq effective_vTotal_zero_iff)
qed

theorem c6_refresh_zero_witness:
  "mi_hTotal no_hTotal_mode = 0 \<and> mode_refresh (\<lambda>x. x + 1) no_hTotal_mode = 0 \<and>
   mi_hTotal no_vTotal_mode \<noteq> 0 \<and> mi_vTotal no_vTotal_mode = 0 \<and>
   effective_vTotal no_vTotal_mode = 0 \<and> mode_refresh (\<lambda>x. x + 1) no_vTotal_mode = 0 \<and>
   mi_hTotal (mode_1080i) \<noteq> 0 \<and> mi_vTotal (mode_1080i) \<noteq> 0 \<and>
   1 / 2 \<le> real (unat (mi_hTotal (mode_1080i))) * effective_vTotal (mode_1080i)"
proof -
  have h: "mi_hTotal no_hTotal_mode = 0" "mi_hTotal no_vTotal_mode \<noteq> 0"
    "mi_vTotal no_vTotal_mode = 0"
    by (simp_all add: no_hTotal_mode_def no_vTotal_mode_def)
  have g: "mi_hTotal (mode_1080i) \<noteq> 0" "mi_vTotal (mode_1080i) \<noteq> 0"
    by (simp_all add: mode_1080i_def)
  note a = c6_refresh_zero [of no_hTotal_mode "\<lambda>x. x + 1"]
  note b = c6_refresh_zero [of no_vTotal_mode "\<lambda>x. x + 1"]
  note c = c6_refresh_zero [of "mode_1080i" "\<lambda>x. x"]
  have a1: "mode_refresh (\<lambda>x. x + 1) no_hTotal_mode = 0" using a h(1) by blast
  have b1: "effective_vTotal no_vTotal_mode = 0" using b h(3) by blast
  have b2: "mode_refresh (\<lambda>x. x + 1) no_vTotal_mode = 0" using b b1 by blast
  have c1: "1 / 2 \<le> real (unat (mi_hTotal (mode_1080i))) *
      effective_vTotal (mode_1080i)"
    using c g by blast
  from h g a1 b1 b2 c1 show ?thesis by blast
qed

section \<open>The mode loop in closed form\<close>

lemma mode_loop_eq:
  "mode_loop res oi n list_store =
     (if list_all (\<lambda>k. asprintf_noargs (mi_name (the (find_mode_by_xid res (oi_modes oi ! k)))) \<noteq> None)
           (filter (\<lambda>k. find_mode_by_xid res (oi_modes oi ! k) \<noteq> None) [n..<length (oi_modes oi)])
      then Inr (list_store @
             map (row_at res oi)
               (filter (\<lambda>k. find_mode_by_xid res (oi_modes oi ! k) \<noteq> None)
                  [n..<length (oi_modes oi)]))
      else Inl FormatConversion)"
proof (induction res oi n list_store rule: mode_loop.induct)
  case (1 res oi n list_store)
  show ?case
  proof (cases "n < length (oi_modes oi)")
    case True
    then have u: "[n..<length (oi_modes oi)] = n # [n + 1..<length (oi_modes oi)]"
      by (simp add: upt_conv_Cons)
    show ?thesis
    proof (cases "find_mode_by_xid res (oi_modes oi ! n)")
      case None
      with True "1.IH"(1) show ?thesis
        by (subst mode_loop.simps) (simp add: u)
    next
      case (Some mode_info)
      show ?thesis
      proof (cases "asprintf_noargs (mi_name mode_info)")
        case None
        with True Some show ?thesis
          by (subst mode_loop.simps) (simp add: u)
      next
        case (Some name)
        with True \<open>find_mode_by_xid res (oi_modes oi ! n) = Some mode_info\<close> "1.IH"(2)
        show ?thesis
          by (subst mode_loop.simps) (simp add: u row_at_def)
      qed
    qed
  next
    case False
    then show ?thesis by (subst mode_loop.simps) simp
  qed
qed

lemma mode_loop_rows:
  "list_all (\<lambda>k. asprintf_noargs (mi_name (the (find_mode_by_xid res (oi_modes oi ! k)))) \<noteq> None)
     (resolved_positions res oi) \<Longrightarrow>
   mode_loop res oi 0 [] = Inr (map (row_at res oi) (resolved_positions res oi))"
  by (simp add: mode_loop_eq resolved_positions_def)

lemma mode_loop_conversion:
  "\<not> list_all (\<lambda>k. asprintf_noargs (mi_name (the (find_mode_by_xid res (oi_modes oi ! k)))) \<noteq> None)
     (resolved_positions res oi) \<Longrightarrow>
   mode_loop res oi 0 [] = Inl FormatConversion"
  by (simp add: mode_loop_eq resolved_positions_def)

lemma asprintf_noargs_plain: "CHR ''%'' \<notin> set fmt \<Longrightarrow> asprintf_noargs fmt = Some fmt"
  by (induction fmt rule: asprintf_noargs.induct) auto

lemma example_rows_built: "mode_loop example_res example_output 0 [] = Inr example_rows"
  by code_simp

lemma unsigned_less_iff:
  assumes "k < 2 ^ 31" and "0 \<le> sint (p :: 32 word)"
  shows "(word_of_nat k < p) \<longleftrightarrow> int k < sint p"
proof -
  have "sint p < 2 ^ 32"
    using sint_lt [of p] by simp
  then have "take_bit 32 (sint p) = sint p"
    using assms(2) by (simp add: take_bit_int_eq_self)
  then have p: "sint p = uint p"
    by (simp add: uint_sint)
  have k: "unat (word_of_nat k :: 32 word) = k"
    using assms(1) by (simp add: unat_of_nat)
  have "(word_of_nat k < p) \<longleftrightarrow> unat (word_of_nat k :: 32 word) < unat p"
    by (simp add: word_less_nat_alt)
  also have "\<dots> \<longleftrightarrow> int k < uint p"
    by (simp only: k uint_nat of_nat_less_iff)
  finally show ?thesis by (simp add: p)
qed

lemma find_mode_Some: "find_mode ms xid = Some m \<Longrightarrow> m \<in> set ms \<and> mi_id m = xid"
  by (induction ms) (auto split: if_splits)

lemma find_mode_None: "find_mode ms xid = None \<longleftrightarrow> xid \<notin> mi_id ` set ms"
  by (induction ms) auto

lemma filter_by_index:
  "filter P xs = map (\<lambda>n. xs ! n) (filter (\<lambda>n. P (xs ! n)) [0..<length xs])"
proof -
  have "filter P xs = filter P (map (\<lambda>n. xs ! n) [0..<length xs])"
    by (simp add: map_nth)
  also have "\<dots> = map (\<lambda>n. xs ! n) (filter (\<lambda>n. P (xs ! n)) [0..<length xs])"
    by (simp add: filter_map comp_def)
  finally show ?thesis .
qed

lemma activate_output_guards:
  assumes "srv_output_info srv output = Some oi" and "oi_connection oi \<noteq> RR_Disconnected"
    and "oi_crtc oi \<noteq> 0" and "srv_crtc_info srv (oi_crtc oi) = Some ci"
  shows "activate_output srv res output =
     (case (case output_edid_get srv output of
              None \<Rightarrow> Inr (replicate 13 0)
            | Some edid \<Rightarrow>
                if length edid \<noteq> 0
                then map_sum id pr_modelname (parseedid edid (replicate 13 0))
                else Inr (replicate 13 0)) of
        Inl f \<Rightarrow> Inl f
      | Inr modelname \<Rightarrow>
          (case mode_loop res oi 0 [] of
             Inl f \<Rightarrow> Inl f
           | Inr list_store \<Rightarrow>
               (case c_str modelname of
                  None \<Rightarrow> Inl OutOfBoundsRead
                | Some s \<Rightarrow>
                    Inr (Some \<lparr>page_label = oi_name oi @ ''('' @ chars_of s @ '')'',
                               page_rows = list_store\<rparr>))))"
  using assms by (simp add: activate_output_def)

text \<open>
  For an output that is not disconnected, whose CRTC the server resolves and which has no
  identification block, when every resolved mode name prints: the page is built, and its
  rows are one for each position of the advertised list whose identifier the global
  table resolves, in advertised order, the other positions skipped.  A row is marked
  preferred exactly when its position in the advertised list is below \<open>npreferred\<close>.
\<close>

lemma catalog_rows:
  assumes "srv_output_info srv output = Some oi" and "oi_connection oi \<noteq> RR_Disconnected"
    and "oi_crtc oi \<noteq> 0" and "srv_crtc_info srv (oi_crtc oi) = Some ci"
    and "length (oi_modes oi) < 2 ^ 31" and "0 \<le> sint (oi_npreferred oi)"
    and "list_all (\<lambda>k. asprintf_noargs (mi_name (the (find_mode_by_xid res (oi_modes oi ! k)))) \<noteq> None)
           (resolved_positions res oi)"
  shows "\<exists>rows. mode_loop res oi 0 [] = Inr rows \<and>
     length rows = length (resolved_positions res oi) \<and>
     (\<forall>k<length (resolved_positions res oi).
        xid_col (rows ! k) = sint (oi_modes oi ! (resolved_positions res oi ! k)) \<and>
        find_mode_by_xid res (oi_modes oi ! (resolved_positions res oi ! k)) =
          Some (mode_col (rows ! k)) \<and>
        asprintf_noargs (mi_name (mode_col (rows ! k))) = Some (name_col (rows ! k)) \<and>
        (preferred_col (rows ! k) \<longleftrightarrow>
           int (resolved_positions res oi ! k) < sint (oi_npreferred oi))) \<and>
     map (\<lambda>r. word_of_int (xid_col r)) rows =
       filter (\<lambda>xid. find_mode_by_xid res xid \<noteq> None) (oi_modes oi) \<and>
     (output_edid_get srv output = None \<longrightarrow>
        activate_output srv res output =
          Inr (Some \<lparr>page_label = oi_name oi @ ''()'', page_rows = rows\<rparr>)) \<and>
     (\<forall>xid. find_mode_by_xid res xid \<noteq> None \<longleftrightarrow> xid \<in> mi_id ` set (res_modes res))"
proof -
  let ?ps = "resolved_positions res oi"
  define rows where "rows = map (row_at res oi) ?ps"
  have ml: "mode_loop res oi 0 [] = Inr rows"
    unfolding rows_def using assms(7) by (rule mode_loop_rows)
  have len: "length rows = length ?ps" by (simp add: rows_def)
  have pt: "\<forall>k<length ?ps.
        xid_col (rows ! k) = sint (oi_modes oi ! (?ps ! k)) \<and>
        find_mode_by_xid res (oi_modes oi ! (?ps ! k)) = Some (mode_col (rows ! k)) \<and>
        asprintf_noargs (mi_name (mode_col (rows ! k))) = Some (name_col (rows ! k)) \<and>
        (preferred_col (rows ! k) \<longleftrightarrow> int (?ps ! k) < sint (oi_npreferred oi))"
  proof (intro allI impI)
    fix k assume k: "k < length ?ps"
    then have mem: "?ps ! k \<in> set ?ps" by simp
    then have lt: "?ps ! k < length (oi_modes oi)"
      and rs: "find_mode_by_xid res (oi_modes oi ! (?ps ! k)) \<noteq> None"
      by (simp_all add: resolved_positions_def)
    from mem assms(7) have nm:
      "asprintf_noargs (mi_name (the (find_mode_by_xid res (oi_modes oi ! (?ps ! k))))) \<noteq> None"
      by (simp add: list_all_iff)
    from lt assms(5) have "?ps ! k < 2 ^ 31" by simp
    then have pr: "(word_of_nat (?ps ! k) < oi_npreferred oi) \<longleftrightarrow>
        int (?ps ! k) < sint (oi_npreferred oi)"
      using assms(6) by (rule unsigned_less_iff)
    have r: "rows ! k = row_at res oi (?ps ! k)"
      using k by (simp add: rows_def)
    show "xid_col (rows ! k) = sint (oi_modes oi ! (?ps ! k)) \<and>
        find_mode_by_xid res (oi_modes oi ! (?ps ! k)) = Some (mode_col (rows ! k)) \<and>
        asprintf_noargs (mi_name (mode_col (rows ! k))) = Some (name_col (rows ! k)) \<and>
        (preferred_col (rows ! k) \<longleftrightarrow> int (?ps ! k) < sint (oi_npreferred oi))"
      using rs nm pr by (auto simp: r row_at_def)
  qed
  have ids: "map (\<lambda>r. word_of_int (xid_col r)) rows =
       filter (\<lambda>xid. find_mode_by_xid res xid \<noteq> None) (oi_modes oi)"
  proof -
    have "map (\<lambda>r. word_of_int (xid_col r)) rows = map (\<lambda>n. oi_modes oi ! n) ?ps"
      by (simp add: rows_def row_at_def comp_def)
    also have "\<dots> = filter (\<lambda>xid. find_mode_by_xid res xid \<noteq> None) (oi_modes oi)"
      unfolding resolved_positions_def
      by (rule filter_by_index [symmetric])
    finally show ?thesis .
  qed
  have pg: "output_edid_get srv output = None \<longrightarrow>
        activate_output srv res output =
          Inr (Some \<lparr>page_label = oi_name oi @ ''()'', page_rows = rows\<rparr>)"
    using activate_output_guards [OF assms(1-4), of res] ml
    by (simp add: c_str_zeros chars_of_def)
  have tb: "\<forall>xid. find_mode_by_xid res xid \<noteq> None \<longleftrightarrow> xid \<in> mi_id ` set (res_modes res)"
    by (simp add: find_mode_by_xid_def find_mode_None)
  show ?thesis
    by (intro exI [of _ rows] conjI ml len pt ids pg tb)
qed

section \<open>Claims about the mode catalog\<close>

text \<open>
  Claim C8 at the failing input.  Output \<open>0x42\<close> is connected, its CRTC resolves and
  it has no identification block; its first advertised identifier \<open>0x50\<close> resolves in
  the global table, to a mode named \<open>%s%s%s%s%s%s%s%s\<close>.  The claim gives a catalog
  with an entry for it.  The mode loop prints the name as a format without arguments
  and no page is built.  With the name \<open>1920x1080\<close> the same output gets its four
  rows.
\<close>

theorem c8_format_name_fault:
  "srv_output_info example_server 0x42 = Some example_output \<and>
   oi_connection example_output \<noteq> RR_Disconnected \<and> oi_crtc example_output \<noteq> 0 \<and>
   srv_crtc_info example_server (oi_crtc example_output) = Some example_crtc \<and>
   output_edid_get example_server 0x42 = None \<and>
   oi_modes example_output = [0x50, 0x99, 0x51, 0x52, 0x53] \<and>
   find_mode_by_xid percent_res 0x50 = Some percent_mode \<and>
   mi_name percent_mode = ''%s%s%s%s%s%s%s%s'' \<and>
   mode_loop percent_res example_output 0 [] = Inl FormatConversion \<and>
   activate_output example_server percent_res 0x42 = Inl FormatConversion \<and>
   map_sum id (map_option (map xid_col \<circ> page_rows))
     (activate_output example_server example_res 0x42) = Inr (Some [0x50, 0x51, 0x52, 0x53])"
  by code_simp

text \<open>The rows of the example, from the lemma on the catalog.\<close>

lemma catalog_rows_example:
  "resolved_positions example_res example_output = [0, 2, 3, 4] \<and>
   mode_loop example_res example_output 0 [] = Inr example_rows \<and>
   map (\<lambda>r. word_of_int (xid_col r)) example_rows = [0x50, 0x51, 0x52, 0x53 :: XID] \<and>
   map name_col example_rows = [''1920x1080'', ''1920x1080i'', ''320x240d'', ''1280x720''] \<and>
   map preferred_col example_rows = [True, True, False, False]"
  by code_simp

section \<open>Claims about the mode switch\<close>

text \<open>
  Claim C1, as the code has it.  For an output with a bound CRTC, activating a row makes
  one configuration call for that CRTC.  The call carries the row's mode identifier, the
  position \<open>(0, 0)\<close>, the rotation \<open>RR_Rotate_0\<close> and the one output; the CRTC's
  position and rotation are not read.  Committed, it leaves the CRTC with that mode, at
  the origin, unrotated, driving exactly that output.
\<close>

theorem c1_mode_switch_request:
  assumes "path < length model" and "srv_output_info srv output = Some oi"
    and "oi_crtc oi \<noteq> 0" and "srv_crtc_info srv (oi_crtc oi) = Some ci"
  shows "\<exists>rq. row_activated srv model path output = Inr [rq] \<and>
     rq_crtc rq = oi_crtc oi \<and> rq_timestamp rq = CurrentTime \<and>
     rq_mode rq = word_of_int (xid_col (model ! path)) \<and>
     (\<forall>xid. xid_col (model ! path) = sint xid \<longrightarrow> rq_mode rq = xid) \<and>
     rq_x rq = 0 \<and> rq_y rq = 0 \<and> rq_rotation rq = RR_Rotate_0 \<and>
     rq_outputs rq = [output] \<and> rq_noutputs rq = 1 \<and>
     commit_config rq ci =
       ci\<lparr>ci_x := 0, ci_y := 0, ci_mode := word_of_int (xid_col (model ! path)),
          ci_rotation := RR_Rotate_0, ci_outputs := [output]\<rparr>"
  using assms by (simp add: row_activated_def commit_config_def)

theorem c1_mode_switch_request_witness:
  "1 < length example_rows \<and> srv_output_info example_server 0x42 = Some example_output \<and>
   oi_crtc example_output = 0x3F \<and> srv_crtc_info example_server 0x3F = Some example_crtc \<and>
   xid_col (example_rows ! 1) = sint (0x51 :: XID) \<and>
   (\<exists>rq. row_activated example_server example_rows 1 0x42 = Inr [rq] \<and>
      rq_crtc rq = 0x3F \<and> rq_mode rq = 0x51 \<and> rq_x rq = 0 \<and> rq_y rq = 0 \<and>
      rq_rotation rq = RR_Rotate_0 \<and> rq_outputs rq = [0x42] \<and>
      commit_config rq example_crtc =
        \<lparr>ci_x = 0, ci_y = 0, ci_mode = 0x51, ci_rotation = RR_Rotate_0, ci_outputs = [0x42]\<rparr>)"
proof -
  have l: "1 < length example_rows" by code_simp
  have o: "srv_output_info example_server 0x42 = Some example_output" by code_simp
  have c: "oi_crtc example_output = 0x3F" by code_simp
  then have c0: "oi_crtc example_output \<noteq> 0" by simp
  have i: "srv_crtc_info example_server 0x3F = Some example_crtc" by code_simp
  then have i': "srv_crtc_info example_server (oi_crtc example_output) = Some example_crtc"
    by (simp add: c)
  have x: "xid_col (example_rows ! 1) = sint (0x51 :: XID)" by code_simp
  from c1_mode_switch_request [OF l o c0 i'] obtain rq where
    r: "row_activated example_server example_rows 1 0x42 = Inr [rq]" and
    f: "rq_crtc rq = oi_crtc example_output"
      "\<forall>xid. xid_col (example_rows ! 1) = sint xid \<longrightarrow> rq_mode rq = xid"
      "rq_x rq = 0" "rq_y rq = 0" "rq_rotation rq = RR_Rotate_0" "rq_outputs rq = [0x42]" and
    m: "rq_mode rq = word_of_int (xid_col (example_rows ! 1))" and
    cc: "commit_config rq example_crtc =
       example_crtc\<lparr>ci_x := 0, ci_y := 0, ci_mode := word_of_int (xid_col (example_rows ! 1)),
          ci_rotation := RR_Rotate_0, ci_outputs := [0x42]\<rparr>"
    by blast
  have md: "rq_mode rq = 0x51" using f(2) x by blast
  have "commit_config rq example_crtc =
        \<lparr>ci_x = 0, ci_y = 0, ci_mode = 0x51, ci_rotation = RR_Rotate_0, ci_outputs = [0x42]\<rparr>"
    using cc m md by (simp add: example_crtc_def)
  with l o c i x r f md show ?thesis by (simp add: c)
qed

text \<open>
  Claim C1 as stated fails: the CRTC of the example sits at \<open>(1920, 0)\<close>, is rotated
  and drives the outputs \<open>0x42\<close> and \<open>0x44\<close>; after the switch it sits at the origin,
  unrotated, and drives \<open>0x42\<close> alone.
\<close>

theorem c1_position_not_preserved_counterexample:
  "oi_crtc example_output = 0x3F \<and> srv_crtc_info example_server 0x3F = Some example_crtc \<and>
   ci_x example_crtc = 1920 \<and> ci_rotation example_crtc = 2 \<and>
   ci_outputs example_crtc = [0x42, 0x44] \<and>
   map_sum id (map (\<lambda>rq. commit_config rq example_crtc))
     (row_activated example_server example_rows 1 0x42) =
     Inr [\<lparr>ci_x = 0, ci_y = 0, ci_mode = 0x51, ci_rotation = 1, ci_outputs = [0x42]\<rparr>]"
  by code_simp

text \<open>
  Claim C2, as the code has it.  \<open>row_activated\<close> does not look at the CRTC field and
  has no error result: for an output whose CRTC field is empty it makes the
  configuration call all the same, addressed to CRTC 0.  The empty field is handled when
  the pages are built: the loop body skips such an output, so it gets no page.
\<close>

theorem c2_no_crtc_still_requests:
  assumes "path < length model" and "srv_output_info srv output = Some oi"
    and "oi_crtc oi = 0"
  shows "(\<exists>rq. row_activated srv model path output = Inr [rq] \<and> rq_crtc rq = 0 \<and>
            rq_mode rq = word_of_int (xid_col (model ! path)) \<and> rq_outputs rq = [output]) \<and>
         activate_output srv res output = Inr None"
  using assms by (simp add: row_activated_def activate_output_def)

theorem c2_no_crtc_still_requests_witness:
  "1 < length example_rows \<and>
   srv_output_info unbound_server 0x42 = Some (example_output\<lparr>oi_crtc := 0\<rparr>) \<and>
   (\<exists>rq. row_activated unbound_server example_rows 1 0x42 = Inr [rq] \<and> rq_crtc rq = 0 \<and>
      rq_outputs rq = [0x42]) \<and>
   activate_output unbound_server example_res 0x42 = Inr None"
proof -
  have l: "1 < length example_rows" by code_simp
  have o: "srv_output_info unbound_server 0x42 = Some (example_output\<lparr>oi_crtc := 0\<rparr>)"
    by code_simp
  have c: "oi_crtc (example_output\<lparr>oi_crtc := 0\<rparr>) = 0" by simp
  from c2_no_crtc_still_requests [OF l o c, of example_res] l o show ?thesis by blast
qed

text \<open>
  Claim C2 as stated fails: with the CRTC field of the output empty, the switch returns
  no error and makes one configuration call.
\<close>

theorem c2_request_without_crtc_counterexample:
  "map_option oi_crtc (srv_output_info unbound_server 0x42) = Some 0 \<and>
   row_activated unbound_server example_rows 1 0x42 =
     Inr [\<lparr>rq_crtc = 0, rq_timestamp = 0, rq_x = 0, rq_y = 0, rq_mode = 0x51,
           rq_rotation = 1, rq_outputs = [0x42], rq_noutputs = 1\<rparr>]"
  by code_simp

section \<open>The decoder inside a page\<close>

text \<open>
  The label of the page carries the decoded name.  A thirteen-character name leaves the
  buffer without a terminator, and printing the label reads past it.
\<close>

lemma page_label_abc:
  "map_sum id (map_option page_label) (activate_output (example_server_with abc_block) example_res 0x42) =
     Inr (Some ''HDMI-1(ABC)'')"
  by code_simp

lemma page_label_full_name:
  "activate_output (example_server_with full_name_block) example_res 0x42 = Inl OutOfBoundsRead"
  by code_simp

end
